theory Spec2Isabelle
  imports Complex_Main "HOL-Library.Multiset"
begin

section \<open>The catalog builder \<^verbatim>\<open>scripts/build_catalog.mjs\<close>\<close>

text \<open>
  The script lists the public repositories of an organisation, keeps those that pass an
  allow/block filter, probes each repository's published site for a JSON document, maps
  every raw record of that document to a catalog item, sorts the items and writes one file.

  The embedding follows the script function by function. Network calls are reads of a
  \<open>world\<close> value; an exception is a value \<open>Inl e\<close> of a sum type; the one loop that
  may run forever, the pagination of the listing, returns an \<open>option\<close>.
\<close>

subsection \<open>JavaScript values\<close>

text \<open>
  The documents fetched from the sites are untrusted JSON, so the values the script handles
  are the JSON values and \<^verbatim>\<open>undefined\<close> (what reading an absent property gives).
  An object is the list of its own properties (the first entry for a name is the
  property); a string is the list of its UTF-16 code units, and the model covers the
  strings whose units are below 256, one \<open>char\<close> per unit. The script never does
  arithmetic on a number: it only tests whether it is zero.
\<close>

datatype json =
    JUndefined
  | JNull
  | JBool bool
  | JNum rat
  | JStr string
  | JArr "json list"
  | JObj "(string \<times> json) list"

datatype error =
    Error string
  | TypeError
  | NetworkError
  | SyntaxError

text \<open>The truthiness that \<^verbatim>\<open>||\<close>, \<^verbatim>\<open>&&\<close>, \<^verbatim>\<open>!\<close> and \<^verbatim>\<open>if\<close> test.\<close>

fun truthy :: "json \<Rightarrow> bool" where
  "truthy JUndefined = False"
| "truthy JNull = False"
| "truthy (JBool b) = b"
| "truthy (JNum n) = (n \<noteq> 0)"
| "truthy (JStr s) = (s \<noteq> [])"
| "truthy (JArr xs) = True"
| "truthy (JObj kvs) = True"

text \<open>\<^verbatim>\<open>a || b\<close> and \<^verbatim>\<open>a ?? b\<close>.\<close>

definition or_else :: "json \<Rightarrow> json \<Rightarrow> json" where
  "or_else a b = (if truthy a then a else b)"

fun nullish :: "json \<Rightarrow> bool" where
  "nullish JUndefined = True"
| "nullish JNull = True"
| "nullish v = False"

definition coalesce :: "json \<Rightarrow> json \<Rightarrow> json" where
  "coalesce a b = (if nullish a then b else a)"

text \<open>
  Reading the property \<open>k\<close> of a value that is neither \<^verbatim>\<open>null\<close> nor
  \<^verbatim>\<open>undefined\<close>. Strings and arrays have a \<^verbatim>\<open>length\<close>; none of the other
  property names the script reads (\<^verbatim>\<open>items\<close>, \<^verbatim>\<open>id\<close>, \<^verbatim>\<open>title\<close>, ...) is
  defined on a prototype, so they are \<^verbatim>\<open>undefined\<close> unless an object has them.
\<close>

fun member :: "json \<Rightarrow> string \<Rightarrow> json" where
  "member (JObj kvs) k = (case map_of kvs k of None \<Rightarrow> JUndefined | Some v \<Rightarrow> v)"
| "member (JArr xs) k = (if k = ''length'' then JNum (of_nat (length xs)) else JUndefined)"
| "member (JStr s) k = (if k = ''length'' then JNum (of_nat (length s)) else JUndefined)"
| "member v k = JUndefined"

text \<open>\<^verbatim>\<open>v.k\<close> raises a TypeError on \<^verbatim>\<open>null\<close> and \<^verbatim>\<open>undefined\<close>; \<^verbatim>\<open>v?.k\<close> gives \<^verbatim>\<open>undefined\<close> there.\<close>

definition get_prop :: "json \<Rightarrow> string \<Rightarrow> error + json" where
  "get_prop v k = (if nullish v then Inl TypeError else Inr (member v k))"

definition opt_chain :: "json \<Rightarrow> string \<Rightarrow> json" where
  "opt_chain v k = (if nullish v then JUndefined else member v k)"

fun isArray :: "json \<Rightarrow> bool" where
  "isArray (JArr xs) = True"
| "isArray v = False"

text \<open>\<^verbatim>\<open>Array.isArray(v) ? v : []\<close>\<close>

fun array_or_empty :: "json \<Rightarrow> json list" where
  "array_or_empty (JArr xs) = xs"
| "array_or_empty v = []"

text \<open>
  What \<^verbatim>\<open>for (const it of v)\<close> runs over: the elements of an array, the characters of
  a string; any other value is not iterable.
\<close>

fun iterate :: "json \<Rightarrow> error + json list" where
  "iterate (JArr xs) = Inr xs"
| "iterate (JStr s) = Inr (map (\<lambda>c. JStr [c]) s)"
| "iterate v = Inl TypeError"

subsection \<open>Strings\<close>

text \<open>Decimal digits of a number in a template literal.\<close>

fun show_nat :: "nat \<Rightarrow> string" where
  "show_nat n =
     (if n < 10 then [char_of (48 + n)]
      else show_nat (n div 10) @ [char_of (48 + n mod 10)])"

declare show_nat.simps [simp del]

text \<open>
  \<^verbatim>\<open>String.prototype.toLowerCase\<close> on code units below 256: \<^verbatim>\<open>A\<close>-\<^verbatim>\<open>Z\<close> and the
  Latin-1 capitals U+00C0-U+00DE (U+00D7, the multiplication sign, has no case).
\<close>

definition lower_char :: "char \<Rightarrow> char" where
  "lower_char c =
     (let n = (of_char c :: nat) in
      if (65 \<le> n \<and> n \<le> 90) \<or> (192 \<le> n \<and> n \<le> 222 \<and> n \<noteq> 215)
      then char_of (n + 32) else c)"

definition toLowerCase :: "string \<Rightarrow> string" where
  "toLowerCase s = map lower_char s"

text \<open>
  The class \<^verbatim>\<open>\s\<close> below 256: tab, line feed, vertical tab, form feed, carriage
  return, space and the no-break space.
\<close>

definition is_space :: "char \<Rightarrow> bool" where
  "is_space c = ((of_char c :: nat) \<in> {9, 10, 11, 12, 13, 32, 160})"

text \<open>\<^verbatim>\<open>s.replace(/\s+/g, "-")\<close>: every maximal run of white space becomes one hyphen.\<close>

function replace_spaces :: "string \<Rightarrow> string" where
  "replace_spaces [] = []"
| "replace_spaces (c # cs) =
     (if is_space c then CHR ''-'' # replace_spaces (dropWhile is_space cs)
      else c # replace_spaces cs)"
  by pat_completeness auto
termination
  by (relation "measure length") (auto simp: less_Suc_eq_le length_dropWhile_le)

subsection \<open>Configuration and data\<close>

text \<open>
  The module-level constants read from the environment. A variable that is not set is
  \<^verbatim>\<open>undefined\<close>, here \<open>None\<close>; the two lists are the values the script computes by
  splitting at commas, trimming and dropping empty entries.
\<close>

record config =
  token :: "string option"
  org :: "string option"
  allowlist :: "string list"
  blocklist :: "string list"

text \<open>An environment variable inside a template literal.\<close>

fun env_str :: "string option \<Rightarrow> string" where
  "env_str None = ''undefined''"
| "env_str (Some s) = s"

text \<open>\<^verbatim>\<open>!v\<close> on an environment variable: unset or empty.\<close>

fun env_missing :: "string option \<Rightarrow> bool" where
  "env_missing None = True"
| "env_missing (Some s) = (s = [])"

text \<open>
  A repository descriptor of the listing API, with the three fields the script reads;
  the API documents \<^verbatim>\<open>name\<close> and \<^verbatim>\<open>html_url\<close> as strings.
\<close>

record repository =
  name :: string
  html_url :: string
  default_branch :: "string option"

text \<open>
  The catalog item. Its field \<^verbatim>\<open>id\<close> is \<open>item_id\<close> and its field
  \<^verbatim>\<open>keywords\<close> is \<open>keywords_field\<close> here, since \<open>id\<close> is the identity function
  of HOL and \<open>keywords\<close> a reserved word. A scalar field holds whatever value the raw
  item had, so it is a JSON value.
\<close>

record catalog_item =
  item_id :: json
  title :: json
  course_code :: json
  page_url :: json
  summary :: json
  topics :: "json list"
  software :: "json list"
  keywords_field :: "json list"
  license :: json
  learning_outcomes :: "json list"
  blooms_verbs :: "json list"
  blooms_levels :: "json list"
  repo_name :: string
  repo_url :: string

record catalog =
  catalog_org :: string
  generated_at :: string
  item_count :: nat
  items :: "catalog_item list"

subsection \<open>The network\<close>

text \<open>
  A call of \<^verbatim>\<open>fetch\<close> either rejects or resolves to a response with a status;
  reading the body as text or as JSON can reject as well (\<open>None\<close>).
  The listing endpoint answers with repository descriptors, a published site with
  any JSON value.
\<close>

record 'a response =
  status :: nat
  text_body :: "string option"
  json_body :: "'a option"

datatype 'a fetched = Rejected | Resolved "'a response"

definition ok :: "'a response \<Rightarrow> bool" where
  "ok r = (200 \<le> status r \<and> status r \<le> 299)"

text \<open>
  Everything outside the script: the two servers, the clock, and two parts of the
  JavaScript engine. One is \<^verbatim>\<open>String.prototype.localeCompare\<close>, whose collation is
  data of the engine. The other is what \<^verbatim>\<open>Array.prototype.sort\<close> does with the
  comparator of the script on a list for which that comparator can raise a TypeError: the
  pairs an engine compares, and so whether the sort raises, are implementation-defined.
\<close>

record world =
  api_fetch :: "string \<Rightarrow> (string \<times> string) list \<Rightarrow> repository list fetched"
  site_fetch :: "string \<Rightarrow> json fetched"
  now :: string
  localeCompare :: "string \<Rightarrow> string \<Rightarrow> int"
  sort_unkeyed :: "catalog_item list \<Rightarrow> error + catalog_item list"

subsection \<open>Helpers\<close>

text \<open>
  \<^verbatim>\<open>gh(path)\<close>: a rejected fetch and an unreadable JSON body propagate; a response that
  is not ok raises an error whose message holds the status and the body text
  (the empty string when the body cannot be read).
\<close>

definition gh_headers :: "config \<Rightarrow> (string \<times> string) list" where
  "gh_headers cfg =
     [(''Authorization'', ''Bearer '' @ env_str (token cfg)),
      (''X-GitHub-Api-Version'', ''2022-11-28''),
      (''Accept'', ''application/vnd.github+json'')]"

text \<open>\<^verbatim>\<open>await r.text().catch(() => "")\<close>\<close>

definition body_text :: "'a response \<Rightarrow> string" where
  "body_text r = (case text_body r of None \<Rightarrow> [] | Some t \<Rightarrow> t)"

definition gh :: "world \<Rightarrow> config \<Rightarrow> string \<Rightarrow> error + repository list" where
  "gh w cfg path =
     (let url = ''https://api.github.com'' @ path in
      case api_fetch w url (gh_headers cfg) of
        Rejected \<Rightarrow> Inl NetworkError
      | Resolved r \<Rightarrow>
          if \<not> ok r then
            Inl (Error (''GitHub API '' @ show_nat (status r) @ '' on '' @ path @ '': ''
                          @ body_text r))
          else (case json_body r of None \<Rightarrow> Inl SyntaxError | Some b \<Rightarrow> Inr b))"

definition per_page :: nat where
  "per_page = 100"

definition repos_path :: "string \<Rightarrow> nat \<Rightarrow> string" where
  "repos_path org_name page =
     ''/orgs/'' @ org_name @ ''/repos?per_page='' @ show_nat per_page @ ''&page='' @ show_nat page
       @ ''&type=public&sort=full_name''"

text \<open>
  The loop of \<^verbatim>\<open>listAllOrgRepos\<close>, with the paths requested so far as one more
  component of the state. \<open>None\<close> is the loop that never ends.
\<close>

partial_function (option) list_loop ::
  "world \<Rightarrow> config \<Rightarrow> string \<Rightarrow> repository list \<Rightarrow> nat \<Rightarrow> string list
     \<Rightarrow> ((error + repository list) \<times> string list) option" where
  "list_loop w cfg org_name repos page requested =
     (let path = repos_path org_name page in
      case gh w cfg path of
        Inl e \<Rightarrow> Some (Inl e, requested @ [path])
      | Inr batch \<Rightarrow>
          if length batch < per_page then Some (Inr (repos @ batch), requested @ [path])
          else list_loop w cfg org_name (repos @ batch) (page + 1) (requested @ [path]))"

declare list_loop.simps [code]

definition listAllOrgRepos ::
  "world \<Rightarrow> config \<Rightarrow> string \<Rightarrow> ((error + repository list) \<times> string list) option" where
  "listAllOrgRepos w cfg org_name = list_loop w cfg org_name [] 1 []"

definition allowed :: "config \<Rightarrow> string \<Rightarrow> bool" where
  "allowed cfg nm =
     (if allowlist cfg \<noteq> [] \<and> nm \<notin> set (allowlist cfg) then False
      else if nm \<in> set (blocklist cfg) then False
      else True)"

text \<open>The filter of the main procedure: \<^verbatim>\<open>repos.filter(r => allowed(r.name))\<close>.\<close>

definition filter_repos :: "config \<Rightarrow> repository list \<Rightarrow> repository list" where
  "filter_repos cfg repos = filter (\<lambda>r. allowed cfg (name r)) repos"

text \<open>\<^verbatim>\<open>fetchIfExists(url)\<close>: every failure is caught and becomes \<^verbatim>\<open>null\<close>.\<close>

definition fetchIfExists :: "world \<Rightarrow> string \<Rightarrow> json" where
  "fetchIfExists w u =
     (case site_fetch w u of
        Rejected \<Rightarrow> JNull
      | Resolved r \<Rightarrow>
          if \<not> ok r then JNull
          else (case json_body r of None \<Rightarrow> JNull | Some v \<Rightarrow> v))"

text \<open>
  The \<^verbatim>\<open>id\<close> built from the title: \<^verbatim>\<open>toLowerCase\<close> is a method of strings only, so a
  truthy title that is not a string raises a TypeError.
\<close>

definition synth_id :: "json \<Rightarrow> repository \<Rightarrow> error + json" where
  "synth_id it repo =
     (case or_else (member it ''title'') (JStr ''item'') of
        JStr t \<Rightarrow> Inr (JStr (name repo @ ''-'' @ replace_spaces (toLowerCase t)))
      | _ \<Rightarrow> Inl TypeError)"

definition normalizeItem :: "config \<Rightarrow> json \<Rightarrow> repository \<Rightarrow> error + catalog_item" where
  "normalizeItem cfg it repo =
     (if nullish it then Inl TypeError
      else
        case (if truthy (member it ''id'') then Inr (member it ''id'') else synth_id it repo) of
          Inl e \<Rightarrow> Inl e
        | Inr i \<Rightarrow>
            Inr \<lparr> item_id = i,
                  title = or_else (member it ''title'') (JStr (name repo)),
                  course_code = coalesce (member it ''course_code'') JNull,
                  page_url =
                    or_else (member it ''page_url'')
                      (or_else (member it ''site_url'')
                         (JStr (''https://'' @ env_str (org cfg) @ ''.github.io/'' @ name repo @ ''/''))),
                  summary = coalesce (member it ''summary'') JNull,
                  topics = array_or_empty (member it ''topics''),
                  software = array_or_empty (member it ''software''),
                  keywords_field = array_or_empty (member it ''keywords''),
                  license = or_else (member it ''license'') (JStr ''CC-BY-4.0''),
                  learning_outcomes = array_or_empty (member it ''learning_outcomes''),
                  blooms_verbs = array_or_empty (member it ''blooms_verbs''),
                  blooms_levels = array_or_empty (member it ''blooms_levels''),
                  repo_name = name repo,
                  repo_url = html_url repo \<rparr>)"

subsection \<open>The main procedure\<close>

text \<open>The test \<^verbatim>\<open>data?.items?.length\<close>.\<close>

definition has_items :: "json \<Rightarrow> bool" where
  "has_items data = truthy (opt_chain (opt_chain data ''items'') ''length'')"

definition candidates :: "config \<Rightarrow> repository \<Rightarrow> string list" where
  "candidates cfg repo =
     (let base = ''https://'' @ env_str (org cfg) @ ''.github.io/'' @ name repo @ ''/'' in
      [base @ ''oer-assignments.json'', base @ ''docs/oer-assignments.json''])"

text \<open>
  The loop over the candidates: \<open>data\<close> is the variable of the script, the last component
  collects the URLs fetched.
\<close>

fun probe :: "world \<Rightarrow> string list \<Rightarrow> json \<Rightarrow> string list \<Rightarrow> json \<times> string list" where
  "probe w [] data tried = (data, tried)"
| "probe w (u # us) data tried =
     (let d = fetchIfExists w u in
      if has_items d then (d, tried @ [u]) else probe w us d (tried @ [u]))"

fun normalize_all :: "config \<Rightarrow> repository \<Rightarrow> json list \<Rightarrow> error + catalog_item list" where
  "normalize_all cfg repo [] = Inr []"
| "normalize_all cfg repo (it # its) =
     (case normalizeItem cfg it repo of
        Inl e \<Rightarrow> Inl e
      | Inr x \<Rightarrow> (case normalize_all cfg repo its of Inl e \<Rightarrow> Inl e | Inr xs \<Rightarrow> Inr (x # xs)))"

text \<open>
  One turn of the loop over the repositories: the items it pushes. The rest of the turn
  (the request for \<^verbatim>\<open>oer.yml\<close>) discards what it reads and catches every exception, so
  it changes neither the items nor the control flow, and is left out.
\<close>

definition repo_items :: "world \<Rightarrow> config \<Rightarrow> repository \<Rightarrow> error + catalog_item list" where
  "repo_items w cfg repo =
     (let data = fst (probe w (candidates cfg repo) JNull []) in
      if has_items data then
        (case iterate (member data ''items'') of
           Inl e \<Rightarrow> Inl e
         | Inr raws \<Rightarrow> normalize_all cfg repo raws)
      else Inr [])"

fun main_loop ::
  "world \<Rightarrow> config \<Rightarrow> repository list \<Rightarrow> catalog_item list \<Rightarrow> error + catalog_item list" where
  "main_loop w cfg [] acc = Inr acc"
| "main_loop w cfg (repo # repos) acc =
     (case repo_items w cfg repo of
        Inl e \<Rightarrow> Inl e
      | Inr new \<Rightarrow> main_loop w cfg repos (acc @ new))"

subsection \<open>Sorting\<close>

text \<open>
  The comparator calls \<^verbatim>\<open>localeCompare\<close> on \<^verbatim>\<open>a.course_code || ""\<close> and on
  \<^verbatim>\<open>a.title\<close>, which must then be strings. The key of an item is this pair of strings.
\<close>

fun as_string :: "json \<Rightarrow> string option" where
  "as_string (JStr s) = Some s"
| "as_string v = None"

definition item_key :: "catalog_item \<Rightarrow> (string \<times> string) option" where
  "item_key a =
     (case as_string (or_else (course_code a) (JStr [])) of
        None \<Rightarrow> None
      | Some c \<Rightarrow> (case as_string (title a) of None \<Rightarrow> None | Some t \<Rightarrow> Some (c, t)))"

text \<open>\<^verbatim>\<open>c1.localeCompare(c2) || t1.localeCompare(t2)\<close>\<close>

definition compare_keys ::
  "(string \<Rightarrow> string \<Rightarrow> int) \<Rightarrow> string \<times> string \<Rightarrow> string \<times> string \<Rightarrow> int" where
  "compare_keys lc a b =
     (let c = lc (fst a) (fst b) in if c \<noteq> 0 then c else lc (snd a) (snd b))"

text \<open>
  A consistent comparator, as \<^verbatim>\<open>Array.prototype.sort\<close> asks for: the sign of
  \<open>cmp a b\<close> is a total preorder.
\<close>

definition consistent :: "('a \<Rightarrow> 'a \<Rightarrow> int) \<Rightarrow> bool" where
  "consistent cmp \<longleftrightarrow>
     (\<forall>a b. cmp a b \<le> 0 \<or> cmp b a \<le> 0)
     \<and> (\<forall>a b c. cmp a b \<le> 0 \<and> cmp b c \<le> 0 \<longrightarrow> cmp a c \<le> 0)
     \<and> (\<forall>a b. cmp a b < 0 \<longleftrightarrow> 0 < cmp b a)"

text \<open>
  The comparison of strings by code units, which is the lexical order. An engine's
  \<^verbatim>\<open>localeCompare\<close> is not this order on all strings (it puts \<^verbatim>\<open>a\<close> before
  \<^verbatim>\<open>B\<close>), but with the root collation it has its sign on the strings of digits and capital letters,
  such as course codes: that is \<open>lexical_on_plain\<close>.
\<close>

fun code_unit_compare :: "string \<Rightarrow> string \<Rightarrow> int" where
  "code_unit_compare [] [] = 0"
| "code_unit_compare [] (y # ys) = - 1"
| "code_unit_compare (x # xs) [] = 1"
| "code_unit_compare (x # xs) (y # ys) =
     (if (of_char x :: nat) < of_char y then - 1
      else if (of_char y :: nat) < of_char x then 1
      else code_unit_compare xs ys)"

definition plain_char :: "char \<Rightarrow> bool" where
  "plain_char c =
     (let n = (of_char c :: nat) in (48 \<le> n \<and> n \<le> 57) \<or> (65 \<le> n \<and> n \<le> 90))"

definition plain :: "string \<Rightarrow> bool" where
  "plain s = list_all plain_char s"

definition lexical_on_plain :: "(string \<Rightarrow> string \<Rightarrow> int) \<Rightarrow> bool" where
  "lexical_on_plain lc \<longleftrightarrow>
     (\<forall>a b. plain a \<and> plain b \<longrightarrow> sgn (lc a b) = sgn (code_unit_compare a b))"

text \<open>
  The comparator of the script on two items that have keys; \<open>None\<close> when one of them
  has none.
\<close>

definition compare_items ::
  "(string \<Rightarrow> string \<Rightarrow> int) \<Rightarrow> catalog_item \<Rightarrow> catalog_item \<Rightarrow> int option" where
  "compare_items lc a b =
     (case item_key a of
        None \<Rightarrow> None
      | Some ka \<Rightarrow> (case item_key b of None \<Rightarrow> None | Some kb \<Rightarrow> Some (compare_keys lc ka kb)))"

text \<open>
  \<^verbatim>\<open>Array.prototype.sort\<close> is stable, and with a consistent comparator that never
  raises its result does not depend on the engine: it is the result of the stable insertion
  sort below. This is the case when every item has a key. Otherwise the outcome is the
  engine's, \<open>sort_unkeyed\<close>; of that the language only promises that a sort which
  returns has permuted the list.
\<close>

definition permuting :: "('a list \<Rightarrow> error + 'a list) \<Rightarrow> bool" where
  "permuting f \<longleftrightarrow> (\<forall>xs ys. f xs = Inr ys \<longrightarrow> mset ys = mset xs)"

fun insert_by ::
  "(string \<Rightarrow> string \<Rightarrow> int) \<Rightarrow> (string \<times> string) \<times> 'a \<Rightarrow> ((string \<times> string) \<times> 'a) list
     \<Rightarrow> ((string \<times> string) \<times> 'a) list" where
  "insert_by lc x [] = [x]"
| "insert_by lc x (y # ys) =
     (if compare_keys lc (fst x) (fst y) \<le> 0 then x # y # ys else y # insert_by lc x ys)"

definition sort_by ::
  "(string \<Rightarrow> string \<Rightarrow> int) \<Rightarrow> ((string \<times> string) \<times> 'a) list \<Rightarrow> ((string \<times> string) \<times> 'a) list" where
  "sort_by lc xs = foldr (insert_by lc) xs []"

fun keyed :: "catalog_item list \<Rightarrow> ((string \<times> string) \<times> catalog_item) list option" where
  "keyed [] = Some []"
| "keyed (a # as) =
     (case item_key a of
        None \<Rightarrow> None
      | Some k \<Rightarrow> (case keyed as of None \<Rightarrow> None | Some ks \<Rightarrow> Some ((k, a) # ks)))"

definition sort_items :: "world \<Rightarrow> catalog_item list \<Rightarrow> error + catalog_item list" where
  "sort_items w xs =
     (case keyed xs of
        None \<Rightarrow> sort_unkeyed w xs
      | Some ks \<Rightarrow> Inr (map snd (sort_by (localeCompare w) ks)))"

subsection \<open>The run\<close>

text \<open>
  The script either writes \<^verbatim>\<open>assets/assignments.json\<close> and ends with status 0, or an
  exception reaches the handler, which prints it and exits with status 1. The file system
  is taken to accept the directory and the file. \<open>None\<close> is the run that never ends,
  because the listing never does.
\<close>

datatype outcome = Aborted error | Wrote catalog

fun exit_code :: "outcome \<Rightarrow> nat" where
  "exit_code (Aborted e) = 1"
| "exit_code (Wrote c) = 0"

fun written :: "outcome \<Rightarrow> catalog option" where
  "written (Aborted e) = None"
| "written (Wrote c) = Some c"

definition run :: "world \<Rightarrow> config \<Rightarrow> outcome option" where
  "run w cfg =
     (if env_missing (token cfg) \<or> env_missing (org cfg)
      then Some (Aborted (Error ''Missing GH_TOKEN or ORG env vars.''))
      else
        case listAllOrgRepos w cfg (env_str (org cfg)) of
          None \<Rightarrow> None
        | Some (Inl e, requested) \<Rightarrow> Some (Aborted e)
        | Some (Inr listed, requested) \<Rightarrow>
            (case main_loop w cfg (filter_repos cfg listed) [] of
               Inl e \<Rightarrow> Some (Aborted e)
             | Inr collected \<Rightarrow>
                 (case sort_items w collected of
                    Inl e \<Rightarrow> Some (Aborted e)
                  | Inr sorted_items \<Rightarrow>
                      Some (Wrote \<lparr> catalog_org = env_str (org cfg),
                                    generated_at = now w,
                                    item_count = length sorted_items,
                                    items = sorted_items \<rparr>))))"

section \<open>Concrete inputs\<close>

text \<open>Values at which the theorems below are instantiated.\<close>

definition demo_repo :: repository where
  "demo_repo = \<lparr> name = ''demo'', html_url = ''https://github.com/acme/demo'', default_branch = None \<rparr>"

definition lab1_repo :: repository where
  "lab1_repo = \<lparr> name = ''lab1'', html_url = ''https://github.com/acme/lab1'', default_branch = Some ''main'' \<rparr>"

definition lab2_repo :: repository where
  "lab2_repo = \<lparr> name = ''lab2'', html_url = ''https://github.com/acme/lab2'', default_branch = Some ''main'' \<rparr>"

definition acme_cfg :: config where
  "acme_cfg = \<lparr> token = Some ''secret'', org = Some ''acme'', allowlist = [], blocklist = [] \<rparr>"

definition picky_cfg :: config where
  "picky_cfg = \<lparr> token = Some ''secret'', org = Some ''acme'',
                 allowlist = [''lab1'', ''lab2''], blocklist = [''lab2''] \<rparr>"

text \<open>Raw items: one with a title only, one whose title is a number, one with falsy fields.\<close>

definition intro_item :: json where
  "intro_item = JObj [(''title'', JStr ''Intro  To GIS'')]"

definition numeric_title_item :: json where
  "numeric_title_item = JObj [(''title'', JNum 5)]"

definition falsy_item :: json where
  "falsy_item =
     JObj [(''id'', JNum 0), (''title'', JStr []), (''course_code'', JStr []),
           (''page_url'', JBool False), (''site_url'', JNull), (''summary'', JStr []),
           (''license'', JStr [])]"

text \<open>
  An engine whose sort makes no comparison on a list of fewer than two items, and raises
  on any longer list in which some item has no key.
\<close>

definition cautious_sort :: "catalog_item list \<Rightarrow> error + catalog_item list" where
  "cautious_sort xs = (if length xs < 2 then Inr xs else Inl TypeError)"

definition api_not_found :: "repository list response" where
  "api_not_found = \<lparr> status = 404, text_body = Some ''Not Found'', json_body = None \<rparr>"

definition not_found :: "json response" where
  "not_found = \<lparr> status = 404, text_body = Some ''Not Found'', json_body = None \<rparr>"

definition found :: "'a \<Rightarrow> 'a response" where
  "found v = \<lparr> status = 200, text_body = None, json_body = Some v \<rparr>"

text \<open>
  The organisation \<^verbatim>\<open>acme\<close> with two repositories: \<^verbatim>\<open>lab1\<close> publishes one item
  under \<^verbatim>\<open>docs/\<close>, \<^verbatim>\<open>lab2\<close> publishes nothing.
\<close>

definition acme_world :: world where
  "acme_world =
     \<lparr> api_fetch = (\<lambda>u hs.
          if u = ''https://api.github.com/orgs/acme/repos?per_page=100&page=1&type=public&sort=full_name''
          then Resolved (found [lab1_repo, lab2_repo]) else Resolved api_not_found),
        site_fetch = (\<lambda>u.
          if u = ''https://acme.github.io/lab1/docs/oer-assignments.json''
          then Resolved (found (JObj [(''items'', JArr [intro_item])])) else Resolved not_found),
        now = ''2024-01-01T00:00:00.000Z'',
        localeCompare = code_unit_compare,
        sort_unkeyed = cautious_sort \<rparr>"

text \<open>A site whose first candidate has a string, not an array, under \<^verbatim>\<open>items\<close>.\<close>

definition odd_world :: world where
  "odd_world =
     \<lparr> api_fetch = (\<lambda>u hs.
          if u = ''https://api.github.com/orgs/acme/repos?per_page=100&page=1&type=public&sort=full_name''
          then Resolved (found [lab1_repo]) else Resolved api_not_found),
        site_fetch = (\<lambda>u.
          if u = ''https://acme.github.io/lab1/oer-assignments.json''
          then Resolved (found (JObj [(''items'', JStr ''ab'')]))
          else if u = ''https://acme.github.io/lab1/docs/oer-assignments.json''
          then Resolved (found (JObj [(''items'', JArr [intro_item])]))
          else Resolved not_found),
        now = ''2024-01-01T00:00:00.000Z'',
        localeCompare = code_unit_compare,
        sort_unkeyed = cautious_sort \<rparr>"

text \<open>What the normalizer makes of a raw item without any field, found under \<^verbatim>\<open>lab1\<close>.\<close>

definition lab1_default_item :: catalog_item where
  "lab1_default_item =
     \<lparr> item_id = JStr ''lab1-item'', title = JStr ''lab1'', course_code = JNull,
        page_url = JStr ''https://acme.github.io/lab1/'', summary = JNull,
        topics = [], software = [], keywords_field = [], license = JStr ''CC-BY-4.0'',
        learning_outcomes = [], blooms_verbs = [], blooms_levels = [],
        repo_name = ''lab1'', repo_url = ''https://github.com/acme/lab1'' \<rparr>"

text \<open>
  A listing of 101 repositories, in a full first page and a short second one; and a
  listing whose second page is refused.
\<close>

definition paged_world :: world where
  "paged_world =
     \<lparr> api_fetch = (\<lambda>u hs.
          if u = ''https://api.github.com/orgs/acme/repos?per_page=100&page=1&type=public&sort=full_name''
          then Resolved (found (replicate 100 lab2_repo))
          else if u = ''https://api.github.com/orgs/acme/repos?per_page=100&page=2&type=public&sort=full_name''
          then Resolved (found [lab1_repo])
          else Resolved api_not_found),
        site_fetch = (\<lambda>u. Resolved not_found),
        now = ''2024-01-01T00:00:00.000Z'',
        localeCompare = code_unit_compare,
        sort_unkeyed = cautious_sort \<rparr>"

definition server_error :: "repository list response" where
  "server_error = \<lparr> status = 500, text_body = Some ''boom'', json_body = None \<rparr>"

definition failing_world :: world where
  "failing_world =
     \<lparr> api_fetch = (\<lambda>u hs.
          if u = ''https://api.github.com/orgs/acme/repos?per_page=100&page=1&type=public&sort=full_name''
          then Resolved (found (replicate 100 lab2_repo))
          else Resolved server_error),
        site_fetch = (\<lambda>u. Resolved not_found),
        now = ''2024-01-01T00:00:00.000Z'',
        localeCompare = code_unit_compare,
        sort_unkeyed = cautious_sort \<rparr>"

text \<open>The catalog of the organisation \<^verbatim>\<open>acme\<close>.\<close>

definition intro_catalog_item :: catalog_item where
  "intro_catalog_item =
     \<lparr> item_id = JStr ''lab1-intro-to-gis'', title = JStr ''Intro  To GIS'', course_code = JNull,
        page_url = JStr ''https://acme.github.io/lab1/'', summary = JNull,
        topics = [], software = [], keywords_field = [], license = JStr ''CC-BY-4.0'',
        learning_outcomes = [], blooms_verbs = [], blooms_levels = [],
        repo_name = ''lab1'', repo_url = ''https://github.com/acme/lab1'' \<rparr>"

definition acme_catalog :: catalog where
  "acme_catalog =
     \<lparr> catalog_org = ''acme'', generated_at = ''2024-01-01T00:00:00.000Z'', item_count = 1,
        items = [intro_catalog_item] \<rparr>"

text \<open>Four items with the course codes B101, null, A200, A100 and the titles x, y, z, w.\<close>

definition coded_item :: "json \<Rightarrow> string \<Rightarrow> catalog_item" where
  "coded_item code t =
     \<lparr> item_id = JStr (''lab1-'' @ t), title = JStr t, course_code = code,
        page_url = JStr ''https://acme.github.io/lab1/'', summary = JNull,
        topics = [], software = [], keywords_field = [], license = JStr ''CC-BY-4.0'',
        learning_outcomes = [], blooms_verbs = [], blooms_levels = [],
        repo_name = ''lab1'', repo_url = ''https://github.com/acme/lab1'' \<rparr>"

definition b101_item :: catalog_item where
  "b101_item = coded_item (JStr ''B101'') ''x''"

definition null_item :: catalog_item where
  "null_item = coded_item JNull ''y''"

definition a200_item :: catalog_item where
  "a200_item = coded_item (JStr ''A200'') ''z''"

definition a100_item :: catalog_item where
  "a100_item = coded_item (JStr ''A100'') ''w''"

text \<open>
  The raw item with a numeric title again, now with an id; and a raw item whose course code
  is a number.
\<close>

definition numeric_title_with_id :: json where
  "numeric_title_with_id = JObj [(''id'', JStr ''a''), (''title'', JNum 5)]"

definition numeric_code_item :: json where
  "numeric_code_item = JObj [(''title'', JStr ''Intro''), (''course_code'', JNum 5)]"

section \<open>The repository filter\<close>

text \<open>
  C2. For every repository name, allow-list and block-list, \<open>allowed\<close> passes the name
  if and only if the allow-list is empty or contains the name, and the block-list does not
  contain it. Hence a name in both lists is excluded, and with an empty allow-list every
  name outside the block-list passes.
\<close>

theorem allowed_iff:
  "(allowed cfg nm \<longleftrightarrow>
      (allowlist cfg = [] \<or> nm \<in> set (allowlist cfg)) \<and> nm \<notin> set (blocklist cfg))
   \<and> (nm \<in> set (allowlist cfg) \<and> nm \<in> set (blocklist cfg) \<longrightarrow> \<not> allowed cfg nm)
   \<and> (allowlist cfg = [] \<and> nm \<notin> set (blocklist cfg) \<longrightarrow> allowed cfg nm)"
  by (auto simp: allowed_def)

theorem allowed_iff_witness:
  "''lab2'' \<in> set (allowlist picky_cfg) \<and> ''lab2'' \<in> set (blocklist picky_cfg)
   \<and> \<not> allowed picky_cfg ''lab2''
   \<and> allowlist acme_cfg = [] \<and> ''lab2'' \<notin> set (blocklist acme_cfg)
   \<and> allowed acme_cfg ''lab2''"
  using allowed_iff [of picky_cfg "''lab2''"] allowed_iff [of acme_cfg "''lab2''"]
  by (simp add: picky_cfg_def acme_cfg_def)

text \<open>
  C9. The filter is idempotent: for every list of repositories and every fixed allow-list
  and block-list, filtering a filtered list gives the same list.
\<close>

theorem filter_repos_idempotent:
  "filter_repos cfg (filter_repos cfg repos) = filter_repos cfg repos"
  by (simp add: filter_repos_def)

theorem filter_repos_idempotent_witness:
  "filter_repos picky_cfg (filter_repos picky_cfg [demo_repo, lab1_repo, lab2_repo]) = [lab1_repo]"
  using filter_repos_idempotent [of picky_cfg "[demo_repo, lab1_repo, lab2_repo]"]
  by (simp add: filter_repos_def allowed_def picky_cfg_def demo_repo_def lab1_repo_def lab2_repo_def)

section \<open>The normalizer\<close>

lemma falsy_iff: "\<not> truthy v \<longleftrightarrow> v \<in> {JUndefined, JNull, JBool False, JNum 0, JStr []}"
  by (cases v) auto

lemma nullish_iff: "nullish v \<longleftrightarrow> v \<in> {JUndefined, JNull}"
  by (cases v) auto

lemma synth_id_string:
  "or_else (member it ''title'') (JStr ''item'') = JStr s \<Longrightarrow>
   synth_id it repo = Inr (JStr (name repo @ ''-'' @ replace_spaces (toLowerCase s)))"
  by (simp add: synth_id_def)

lemma synth_id_other:
  "as_string (or_else (member it ''title'') (JStr ''item'')) = None \<Longrightarrow>
   synth_id it repo = Inl TypeError"
  by (cases "or_else (member it ''title'') (JStr ''item'')") (simp_all add: synth_id_def)

lemma normalizeItem_Inr_iff:
  "(\<exists>x. normalizeItem cfg it repo = Inr x) \<longleftrightarrow>
   \<not> nullish it \<and>
   (truthy (member it ''id'') \<or> as_string (or_else (member it ''title'') (JStr ''item'')) \<noteq> None)"
proof (cases "or_else (member it ''title'') (JStr ''item'')")
  case (JStr s)
  then show ?thesis by (simp add: normalizeItem_def synth_id_string)
qed (simp_all add: normalizeItem_def synth_id_other)

lemma replace_spaces_no_space:
  "\<forall>c \<in> set a. \<not> is_space c \<Longrightarrow> replace_spaces (a @ b) = a @ replace_spaces b"
  by (induction a) simp_all

lemma replace_spaces_run:
  assumes "ws \<noteq> []" and "\<forall>c \<in> set ws. is_space c" and "b = [] \<or> \<not> is_space (hd b)"
  shows "replace_spaces (ws @ b) = CHR ''-'' # replace_spaces b"
proof -
  obtain c cs where ws: "ws = c # cs"
    using assms(1) by (cases ws) auto
  have "dropWhile is_space (cs @ b) = b"
    using assms(2,3) unfolding ws by (cases b) (simp_all add: dropWhile_append3 dropWhile_append)
  then show ?thesis
    using assms(2) by (simp add: ws)
qed

text \<open>
  C3. The normalizer is to return a complete catalog item, without raising, for every raw
  JSON object, and it does so for \<^verbatim>\<open>{}\<close>: under the repository \<^verbatim>\<open>demo\<close> and the
  organisation \<^verbatim>\<open>acme\<close> the id is \<^verbatim>\<open>demo-item\<close>, the title \<^verbatim>\<open>demo\<close>, the course
  code and the summary null, the page URL \<^verbatim>\<open>https://acme.github.io/demo/\<close>, the
  licence \<^verbatim>\<open>CC-BY-4.0\<close> and every array field empty. The script does not keep to this
  for every object: for \<^verbatim>\<open>{"title": 5}\<close> the id is built with
  \<^verbatim>\<open>(5).toLowerCase()\<close>, which raises a TypeError, although the same title next to an
  id is passed through as the title of the item.
\<close>

theorem normalizeItem_raises:
  "normalizeItem acme_cfg numeric_title_item demo_repo = Inl TypeError
   \<and> normalizeItem acme_cfg numeric_title_with_id demo_repo =
       Inr \<lparr> item_id = JStr ''a'', title = JNum 5, course_code = JNull,
             page_url = JStr ''https://acme.github.io/demo/'', summary = JNull,
             topics = [], software = [], keywords_field = [], license = JStr ''CC-BY-4.0'',
             learning_outcomes = [], blooms_verbs = [], blooms_levels = [],
             repo_name = ''demo'', repo_url = ''https://github.com/acme/demo'' \<rparr>
   \<and> normalizeItem acme_cfg (JObj []) demo_repo =
       Inr \<lparr> item_id = JStr ''demo-item'', title = JStr ''demo'', course_code = JNull,
             page_url = JStr ''https://acme.github.io/demo/'', summary = JNull,
             topics = [], software = [], keywords_field = [], license = JStr ''CC-BY-4.0'',
             learning_outcomes = [], blooms_verbs = [], blooms_levels = [],
             repo_name = ''demo'', repo_url = ''https://github.com/acme/demo'' \<rparr>"
  by (simp add: normalizeItem_def synth_id_def or_else_def coalesce_def toLowerCase_def
      lower_char_def is_space_def numeric_title_item_def numeric_title_with_id_def
      acme_cfg_def demo_repo_def)

text \<open>
  C7. When the raw item has no (truthy) id, the id is the repository name, a hyphen, and
  the lower-cased title in which every run of white space has become one hyphen; when the
  title is absent too, the word \<^verbatim>\<open>item\<close> takes its place, so the id is the repository
  name followed by \<^verbatim>\<open>-item\<close>. The last two conjuncts say what the replacement does:
  a stretch without white space is copied, a maximal run of white space gives one hyphen.
\<close>

theorem synthesized_id:
  assumes "\<not> nullish it" and "\<not> truthy (member it ''id'')"
  shows
    "(\<forall>t. member it ''title'' = JStr t \<and> t \<noteq> [] \<longrightarrow>
        (\<exists>x. normalizeItem cfg it repo = Inr x
           \<and> item_id x = JStr (name repo @ ''-'' @ replace_spaces (toLowerCase t))))
     \<and> (\<not> truthy (member it ''title'') \<longrightarrow>
        (\<exists>x. normalizeItem cfg it repo = Inr x \<and> item_id x = JStr (name repo @ ''-item'')))
     \<and> (\<forall>a b. (\<forall>c \<in> set a. \<not> is_space c) \<longrightarrow> replace_spaces (a @ b) = a @ replace_spaces b)
     \<and> (\<forall>ws b. ws \<noteq> [] \<and> (\<forall>c \<in> set ws. is_space c) \<and> (b = [] \<or> \<not> is_space (hd b)) \<longrightarrow>
          replace_spaces (ws @ b) = CHR ''-'' # replace_spaces b)"
proof (intro conjI allI impI)
  fix t
  assume "member it ''title'' = JStr t \<and> t \<noteq> []"
  then have "or_else (member it ''title'') (JStr ''item'') = JStr t"
    by (simp add: or_else_def)
  then show "\<exists>x. normalizeItem cfg it repo = Inr x
           \<and> item_id x = JStr (name repo @ ''-'' @ replace_spaces (toLowerCase t))"
    using assms by (simp add: normalizeItem_def synth_id_string)
next
  assume "\<not> truthy (member it ''title'')"
  then have "or_else (member it ''title'') (JStr ''item'') = JStr ''item''"
    by (simp add: or_else_def)
  then have "synth_id it repo = Inr (JStr (name repo @ ''-item''))"
    by (simp add: synth_id_string toLowerCase_def lower_char_def is_space_def)
  then show "\<exists>x. normalizeItem cfg it repo = Inr x \<and> item_id x = JStr (name repo @ ''-item'')"
    using assms by (simp add: normalizeItem_def)
next
  fix a b :: string
  assume "\<forall>c \<in> set a. \<not> is_space c"
  then show "replace_spaces (a @ b) = a @ replace_spaces b"
    by (rule replace_spaces_no_space)
next
  fix ws b :: string
  assume "ws \<noteq> [] \<and> (\<forall>c \<in> set ws. is_space c) \<and> (b = [] \<or> \<not> is_space (hd b))"
  then show "replace_spaces (ws @ b) = CHR ''-'' # replace_spaces b"
    by (simp add: replace_spaces_run)
qed

theorem synthesized_id_witness:
  "\<not> nullish intro_item \<and> \<not> truthy (member intro_item ''id'')
   \<and> (\<exists>x. normalizeItem acme_cfg intro_item demo_repo = Inr x
          \<and> item_id x = JStr ''demo-intro-to-gis'')
   \<and> \<not> nullish (JObj []) \<and> \<not> truthy (member (JObj []) ''id'')
   \<and> \<not> truthy (member (JObj []) ''title'')
   \<and> (\<exists>x. normalizeItem acme_cfg (JObj []) demo_repo = Inr x
          \<and> item_id x = JStr ''demo-item'')
   \<and> replace_spaces (''to'' @ ''  gis'') = ''to'' @ replace_spaces ''  gis''
   \<and> replace_spaces (''  '' @ ''gis'') = ''-gis''"
proof -
  have 1: "\<not> nullish intro_item" "\<not> truthy (member intro_item ''id'')"
    and 2: "\<not> nullish (JObj [])" "\<not> truthy (member (JObj []) ''id'')"
    by (simp_all add: intro_item_def)
  have 3: "member intro_item ''title'' = JStr ''Intro  To GIS''"
    by (simp add: intro_item_def)
  have 4: "replace_spaces (toLowerCase ''Intro  To GIS'') = ''intro-to-gis''"
    by (simp add: toLowerCase_def lower_char_def is_space_def char_of_eq_iff)
  show ?thesis
    using synthesized_id [OF 1, of acme_cfg demo_repo] synthesized_id [OF 2, of acme_cfg demo_repo]
      1 2 3 4
    by (simp add: demo_repo_def is_space_def)
qed

text \<open>
  C10. The normalizer takes any falsy raw value (the empty string, 0, false, null,
  undefined) of \<^verbatim>\<open>id\<close>, \<^verbatim>\<open>title\<close>, \<^verbatim>\<open>page_url\<close>, \<^verbatim>\<open>site_url\<close> and
  \<^verbatim>\<open>license\<close> as absent and applies the fallback: a falsy title gives the repository
  name, a falsy licence the default licence, a falsy page URL the site URL or, when that is
  falsy too, the constructed URL, a falsy id the synthesized id. For \<^verbatim>\<open>course_code\<close> and
  \<^verbatim>\<open>summary\<close> only null and undefined give the null default: any other value, the empty
  string included, is kept as it is.
\<close>

theorem normalizeItem_defaults:
  assumes "normalizeItem cfg it repo = Inr x"
  shows
    "(\<forall>v. \<not> truthy v \<longleftrightarrow> v \<in> {JUndefined, JNull, JBool False, JNum 0, JStr []})
     \<and> (\<not> truthy (member it ''id'') \<longrightarrow>
          (\<exists>s. or_else (member it ''title'') (JStr ''item'') = JStr s
             \<and> item_id x = JStr (name repo @ ''-'' @ replace_spaces (toLowerCase s))))
     \<and> (truthy (member it ''id'') \<longrightarrow> item_id x = member it ''id'')
     \<and> (\<not> truthy (member it ''title'') \<longrightarrow> title x = JStr (name repo))
     \<and> (truthy (member it ''title'') \<longrightarrow> title x = member it ''title'')
     \<and> (\<not> truthy (member it ''page_url'') \<and> \<not> truthy (member it ''site_url'') \<longrightarrow>
          page_url x = JStr (''https://'' @ env_str (org cfg) @ ''.github.io/'' @ name repo @ ''/''))
     \<and> (\<not> truthy (member it ''page_url'') \<and> truthy (member it ''site_url'') \<longrightarrow>
          page_url x = member it ''site_url'')
     \<and> (truthy (member it ''page_url'') \<longrightarrow> page_url x = member it ''page_url'')
     \<and> (\<not> truthy (member it ''license'') \<longrightarrow> license x = JStr ''CC-BY-4.0'')
     \<and> (truthy (member it ''license'') \<longrightarrow> license x = member it ''license'')
     \<and> (member it ''course_code'' \<in> {JUndefined, JNull} \<longrightarrow> course_code x = JNull)
     \<and> (member it ''course_code'' \<notin> {JUndefined, JNull} \<longrightarrow>
          course_code x = member it ''course_code'')
     \<and> (member it ''summary'' \<in> {JUndefined, JNull} \<longrightarrow> summary x = JNull)
     \<and> (member it ''summary'' \<notin> {JUndefined, JNull} \<longrightarrow> summary x = member it ''summary'')"
proof -
  have nn: "\<not> nullish it"
    using assms by (auto simp: normalizeItem_def)
  have id_synth: "\<exists>s. or_else (member it ''title'') (JStr ''item'') = JStr s
             \<and> item_id x = JStr (name repo @ ''-'' @ replace_spaces (toLowerCase s))"
    if "\<not> truthy (member it ''id'')"
  proof (cases "or_else (member it ''title'') (JStr ''item'')")
    case (JStr s)
    then show ?thesis
      using assms nn that by (auto simp: normalizeItem_def synth_id_string)
  qed (use assms nn that in \<open>simp_all add: normalizeItem_def synth_id_other\<close>)
  have fields:
    "truthy (member it ''id'') \<longrightarrow> item_id x = member it ''id''"
    "title x = or_else (member it ''title'') (JStr (name repo))"
    "page_url x = or_else (member it ''page_url'') (or_else (member it ''site_url'')
        (JStr (''https://'' @ env_str (org cfg) @ ''.github.io/'' @ name repo @ ''/'')))"
    "license x = or_else (member it ''license'') (JStr ''CC-BY-4.0'')"
    "course_code x = coalesce (member it ''course_code'') JNull"
    "summary x = coalesce (member it ''summary'') JNull"
    using assms nn by (auto simp: normalizeItem_def split: if_splits sum.splits)
  have falsy: "\<forall>v. \<not> truthy v \<longleftrightarrow> v \<in> {JUndefined, JNull, JBool False, JNum 0, JStr []}"
    using falsy_iff by blast
  have rest: "(truthy (member it ''id'') \<longrightarrow> item_id x = member it ''id'')
     \<and> (\<not> truthy (member it ''title'') \<longrightarrow> title x = JStr (name repo))
     \<and> (truthy (member it ''title'') \<longrightarrow> title x = member it ''title'')
     \<and> (\<not> truthy (member it ''page_url'') \<and> \<not> truthy (member it ''site_url'') \<longrightarrow>
          page_url x = JStr (''https://'' @ env_str (org cfg) @ ''.github.io/'' @ name repo @ ''/''))
     \<and> (\<not> truthy (member it ''page_url'') \<and> truthy (member it ''site_url'') \<longrightarrow>
          page_url x = member it ''site_url'')
     \<and> (truthy (member it ''page_url'') \<longrightarrow> page_url x = member it ''page_url'')
     \<and> (\<not> truthy (member it ''license'') \<longrightarrow> license x = JStr ''CC-BY-4.0'')
     \<and> (truthy (member it ''license'') \<longrightarrow> license x = member it ''license'')
     \<and> (member it ''course_code'' \<in> {JUndefined, JNull} \<longrightarrow> course_code x = JNull)
     \<and> (member it ''course_code'' \<notin> {JUndefined, JNull} \<longrightarrow>
          course_code x = member it ''course_code'')
     \<and> (member it ''summary'' \<in> {JUndefined, JNull} \<longrightarrow> summary x = JNull)
     \<and> (member it ''summary'' \<notin> {JUndefined, JNull} \<longrightarrow> summary x = member it ''summary'')"
    using fields(1) unfolding fields(2-) nullish_iff [symmetric]
    by (simp add: or_else_def coalesce_def)
  show ?thesis
    using falsy id_synth rest by blast
qed

theorem normalizeItem_defaults_witness:
  "normalizeItem acme_cfg falsy_item demo_repo =
     Inr \<lparr> item_id = JStr ''demo-item'', title = JStr ''demo'', course_code = JStr [],
           page_url = JStr ''https://acme.github.io/demo/'', summary = JStr [],
           topics = [], software = [], keywords_field = [], license = JStr ''CC-BY-4.0'',
           learning_outcomes = [], blooms_verbs = [], blooms_levels = [],
           repo_name = ''demo'', repo_url = ''https://github.com/acme/demo'' \<rparr>
   \<and> \<not> truthy (member falsy_item ''title'') \<and> \<not> truthy (member falsy_item ''license'')
   \<and> member falsy_item ''course_code'' \<notin> {JUndefined, JNull}"
proof -
  have r: "normalizeItem acme_cfg falsy_item demo_repo =
     Inr \<lparr> item_id = JStr ''demo-item'', title = JStr ''demo'', course_code = JStr [],
           page_url = JStr ''https://acme.github.io/demo/'', summary = JStr [],
           topics = [], software = [], keywords_field = [], license = JStr ''CC-BY-4.0'',
           learning_outcomes = [], blooms_verbs = [], blooms_levels = [],
           repo_name = ''demo'', repo_url = ''https://github.com/acme/demo'' \<rparr>"
    by (simp add: normalizeItem_def synth_id_def or_else_def coalesce_def toLowerCase_def
        lower_char_def is_space_def falsy_item_def acme_cfg_def demo_repo_def)
  show ?thesis
    using normalizeItem_defaults [OF r] r by (simp add: falsy_item_def)
qed

section \<open>The probe\<close>

lemma fetchIfExists_cases:
  "fetchIfExists w u =
     (case site_fetch w u of
        Rejected \<Rightarrow> JNull
      | Resolved r \<Rightarrow> if ok r then (case json_body r of None \<Rightarrow> JNull | Some v \<Rightarrow> v) else JNull)"
  by (simp add: fetchIfExists_def split: fetched.splits)

lemma has_items_null [simp]: "\<not> has_items JNull"
  by (simp add: has_items_def opt_chain_def)

lemma has_items_array:
  "map_of kvs ''items'' = Some (JArr xs) \<Longrightarrow> has_items (JObj kvs) \<longleftrightarrow> xs \<noteq> []"
  by (simp add: has_items_def opt_chain_def)

lemma probe_stops:
  "\<forall>c \<in> set pre. \<not> has_items (fetchIfExists w c) \<Longrightarrow> has_items (fetchIfExists w u) \<Longrightarrow>
   probe w (pre @ u # post) data tried = (fetchIfExists w u, tried @ pre @ [u])"
  by (induction pre arbitrary: data tried) simp_all

lemma probe_none:
  "\<forall>c \<in> set us. \<not> has_items (fetchIfExists w c) \<Longrightarrow> \<not> has_items data \<Longrightarrow>
   \<not> has_items (fst (probe w us data tried)) \<and> snd (probe w us data tried) = tried @ us"
  by (induction us arbitrary: data tried) simp_all

lemma candidates_two:
  "candidates cfg repo =
     [''https://'' @ env_str (org cfg) @ ''.github.io/'' @ name repo @ ''/oer-assignments.json'',
      ''https://'' @ env_str (org cfg) @ ''.github.io/'' @ name repo @ ''/docs/oer-assignments.json'']"
  by (simp add: candidates_def)

text \<open>
  C5, as amended. A fetch of a candidate never raises: a network error, a status that is
  not a success, or a body that does not parse gives \<^verbatim>\<open>null\<close>, and a successful one
  gives the parsed document. The probe tries the two candidates in their fixed order and
  returns the document of the first candidate whose \<^verbatim>\<open>items\<close> has a truthy
  \<^verbatim>\<open>length\<close> (when \<^verbatim>\<open>items\<close> is an array: a non-empty one), fetching no candidate after
  it; when no candidate is such, the repository contributes no item.
\<close>

theorem probe_first_with_items:
  "(site_fetch w u = Rejected \<longrightarrow> fetchIfExists w u = JNull)
   \<and> (\<forall>r. site_fetch w u = Resolved r \<and> \<not> ok r \<longrightarrow> fetchIfExists w u = JNull)
   \<and> (\<forall>r. site_fetch w u = Resolved r \<and> json_body r = None \<longrightarrow> fetchIfExists w u = JNull)
   \<and> (\<forall>r v. site_fetch w u = Resolved r \<and> ok r \<and> json_body r = Some v \<longrightarrow> fetchIfExists w u = v)
   \<and> \<not> has_items JNull
   \<and> (\<forall>kvs xs. map_of kvs ''items'' = Some (JArr xs) \<longrightarrow> (has_items (JObj kvs) \<longleftrightarrow> xs \<noteq> []))
   \<and> candidates cfg repo =
       [''https://'' @ env_str (org cfg) @ ''.github.io/'' @ name repo @ ''/oer-assignments.json'',
        ''https://'' @ env_str (org cfg) @ ''.github.io/'' @ name repo @ ''/docs/oer-assignments.json'']
   \<and> ((\<forall>c \<in> set pre. \<not> has_items (fetchIfExists w c)) \<and> has_items (fetchIfExists w c')
        \<longrightarrow> probe w (pre @ c' # post) data tried = (fetchIfExists w c', tried @ pre @ [c']))
   \<and> ((\<forall>c \<in> set (candidates cfg repo). \<not> has_items (fetchIfExists w c))
        \<longrightarrow> repo_items w cfg repo = Inr [])"
proof -
  have zero: "repo_items w cfg repo = Inr []"
    if "\<forall>c \<in> set (candidates cfg repo). \<not> has_items (fetchIfExists w c)"
    using probe_none [OF that has_items_null, of "[]"] by (simp add: repo_items_def)
  show ?thesis
    using zero probe_stops [of pre w c' post data tried] has_items_array
    by (simp add: fetchIfExists_cases candidates_two del: probe.simps)
qed

theorem probe_first_with_items_witness:
  "\<not> has_items (fetchIfExists acme_world ''https://acme.github.io/lab1/oer-assignments.json'')
   \<and> has_items (fetchIfExists acme_world ''https://acme.github.io/lab1/docs/oer-assignments.json'')
   \<and> probe acme_world (candidates acme_cfg lab1_repo) JNull [] =
       (JObj [(''items'', JArr [intro_item])],
        [''https://acme.github.io/lab1/oer-assignments.json'',
         ''https://acme.github.io/lab1/docs/oer-assignments.json''])
   \<and> candidates acme_cfg lab2_repo =
       [''https://acme.github.io/lab2/oer-assignments.json'',
        ''https://acme.github.io/lab2/docs/oer-assignments.json'']
   \<and> \<not> has_items (fetchIfExists acme_world ''https://acme.github.io/lab2/oer-assignments.json'')
   \<and> \<not> has_items (fetchIfExists acme_world ''https://acme.github.io/lab2/docs/oer-assignments.json'')
   \<and> repo_items acme_world acme_cfg lab2_repo = Inr []"
proof -
  have f1: "fetchIfExists acme_world ''https://acme.github.io/lab1/oer-assignments.json'' = JNull"
    by (simp add: fetchIfExists_def acme_world_def not_found_def ok_def)
  have f2: "fetchIfExists acme_world ''https://acme.github.io/lab1/docs/oer-assignments.json''
      = JObj [(''items'', JArr [intro_item])]"
    by (simp add: fetchIfExists_def acme_world_def found_def ok_def)
  have c2: "candidates acme_cfg lab2_repo =
       [''https://acme.github.io/lab2/oer-assignments.json'',
        ''https://acme.github.io/lab2/docs/oer-assignments.json'']"
    by (simp add: candidates_def acme_cfg_def lab2_repo_def)
  have f3: "fetchIfExists acme_world ''https://acme.github.io/lab2/oer-assignments.json'' = JNull"
    "fetchIfExists acme_world ''https://acme.github.io/lab2/docs/oer-assignments.json'' = JNull"
    by (simp_all add: fetchIfExists_def acme_world_def not_found_def ok_def)
  have c1: "candidates acme_cfg lab1_repo =
      [''https://acme.github.io/lab1/oer-assignments.json''] @
       ''https://acme.github.io/lab1/docs/oer-assignments.json'' # []"
    by (simp add: candidates_def acme_cfg_def lab1_repo_def)
  have h: "has_items (JObj [(''items'', JArr [intro_item])])"
    by (simp add: has_items_def opt_chain_def)
  show ?thesis
    using probe_first_with_items
      [of acme_world _ acme_cfg lab2_repo
        "[''https://acme.github.io/lab1/oer-assignments.json'']"
        "''https://acme.github.io/lab1/docs/oer-assignments.json''" "[]" JNull "[]"]
    unfolding c1 using f1 f2 f3 h c2 by (simp del: probe.simps)
qed

text \<open>
  The claim as it was stated fails: when the first candidate serves
  \<^verbatim>\<open>{"items": "ab"}\<close> the probe stops there, although that document has no items
  array and the second candidate has a non-empty one; the repository then contributes the
  two characters as items.
\<close>

theorem probe_accepts_string_items:
  "probe odd_world (candidates acme_cfg lab1_repo) JNull [] =
     (JObj [(''items'', JStr ''ab'')], [''https://acme.github.io/lab1/oer-assignments.json''])
   \<and> fetchIfExists odd_world ''https://acme.github.io/lab1/docs/oer-assignments.json''
       = JObj [(''items'', JArr [intro_item])]
   \<and> repo_items odd_world acme_cfg lab1_repo = Inr [lab1_default_item, lab1_default_item]"
  by (simp add: candidates_def acme_cfg_def lab1_repo_def fetchIfExists_def odd_world_def
      found_def ok_def has_items_def opt_chain_def repo_items_def normalizeItem_def
      synth_id_def or_else_def coalesce_def toLowerCase_def lower_char_def is_space_def
      lab1_default_item_def)

section \<open>The repository lister\<close>

lemma list_loop_error:
  "gh w cfg (repos_path org_name page) = Inl e \<Longrightarrow>
   list_loop w cfg org_name repos page requested =
     Some (Inl e, requested @ [repos_path org_name page])"
  by (subst list_loop.simps) simp

lemma list_loop_short:
  "gh w cfg (repos_path org_name page) = Inr b \<Longrightarrow> length b < per_page \<Longrightarrow>
   list_loop w cfg org_name repos page requested =
     Some (Inr (repos @ b), requested @ [repos_path org_name page])"
  by (subst list_loop.simps) simp

lemma list_loop_full:
  "gh w cfg (repos_path org_name page) = Inr b \<Longrightarrow> per_page \<le> length b \<Longrightarrow>
   list_loop w cfg org_name repos page requested =
     list_loop w cfg org_name (repos @ b) (Suc page) (requested @ [repos_path org_name page])"
  by (subst list_loop.simps) simp

text \<open>As long as the pages are full the loop goes on, keeping what it has read.\<close>

lemma list_loop_full_pages:
  assumes "\<forall>p. page \<le> p \<and> p < page + n \<longrightarrow>
             gh w cfg (repos_path org_name p) = Inr (batch p) \<and> per_page \<le> length (batch p)"
  shows "list_loop w cfg org_name repos page requested =
         list_loop w cfg org_name (repos @ concat (map batch [page..<page + n])) (page + n)
           (requested @ map (repos_path org_name) [page..<page + n])"
  using assms
proof (induction n arbitrary: page repos requested)
  case 0
  then show ?case by simp
next
  case (Suc n)
  have here: "gh w cfg (repos_path org_name page) = Inr (batch page)"
      "per_page \<le> length (batch page)"
    using Suc.prems by simp_all
  have rest: "\<forall>p. Suc page \<le> p \<and> p < Suc page + n \<longrightarrow>
             gh w cfg (repos_path org_name p) = Inr (batch p) \<and> per_page \<le> length (batch p)"
    using Suc.prems by simp
  have split: "[page..<page + Suc n] = page # [Suc page..<Suc page + n]"
    by (simp add: upt_conv_Cons)
  show ?case
    unfolding list_loop_full [OF here] Suc.IH [OF rest] split by simp
qed

lemma listAllOrgRepos_pages:
  assumes "1 \<le> k"
    and "\<forall>p. 1 \<le> p \<and> p < k \<longrightarrow>
           gh w cfg (repos_path org_name p) = Inr (batch p) \<and> per_page \<le> length (batch p)"
  shows "listAllOrgRepos w cfg org_name =
         list_loop w cfg org_name (concat (map batch [1..<k])) k
           (map (repos_path org_name) [1..<k])"
proof -
  have k: "1 + (k - 1) = k"
    using assms(1) by simp
  have "\<forall>p. 1 \<le> p \<and> p < 1 + (k - 1) \<longrightarrow>
           gh w cfg (repos_path org_name p) = Inr (batch p) \<and> per_page \<le> length (batch p)"
    using assms(2) unfolding k .
  from list_loop_full_pages [OF this, of "[]" "[]"] show ?thesis
    unfolding k by (simp add: listAllOrgRepos_def)
qed

lemma upt_snoc: "1 \<le> k \<Longrightarrow> [1..<Suc k] = [1..<k] @ [k]"
  by simp

text \<open>The loop ends as soon as some page is not a full one.\<close>

lemma listAllOrgRepos_terminates:
  assumes "1 \<le> k"
    and "\<forall>b. gh w cfg (repos_path org_name k) = Inr b \<longrightarrow> length b < per_page"
  shows "\<exists>res. listAllOrgRepos w cfg org_name = Some res"
proof -
  define stops where "stops p \<longleftrightarrow> 1 \<le> p \<and>
      (\<forall>b. gh w cfg (repos_path org_name p) = Inr b \<longrightarrow> length b < per_page)" for p
  define m where "m = (LEAST p. stops p)"
  have "stops k"
    using assms by (simp add: stops_def)
  then have m: "stops m"
    unfolding m_def by (rule LeastI)
  have least: "\<not> stops p" if "p < m" for p
    using that unfolding m_def by (rule not_less_Least)
  define batch where
    "batch p = (case gh w cfg (repos_path org_name p) of Inr b \<Rightarrow> b | Inl e \<Rightarrow> [])" for p
  have full: "\<forall>p. 1 \<le> p \<and> p < m \<longrightarrow>
           gh w cfg (repos_path org_name p) = Inr (batch p) \<and> per_page \<le> length (batch p)"
  proof (intro allI impI)
    fix p assume p: "1 \<le> p \<and> p < m"
    then have "\<not> stops p" using least by simp
    then obtain b where "gh w cfg (repos_path org_name p) = Inr b" "\<not> length b < per_page"
      using p by (auto simp: stops_def)
    then show "gh w cfg (repos_path org_name p) = Inr (batch p) \<and> per_page \<le> length (batch p)"
      by (simp add: batch_def)
  qed
  have m1: "1 \<le> m"
    using m by (simp add: stops_def)
  note start = listAllOrgRepos_pages [OF m1 full]
  show ?thesis
  proof (cases "gh w cfg (repos_path org_name m)")
    case (Inl e)
    then show ?thesis
      unfolding start by (simp add: list_loop_error)
  next
    case (Inr b)
    then have "length b < per_page"
      using m by (simp add: stops_def)
    with Inr show ?thesis
      unfolding start by (simp add: list_loop_short)
  qed
qed

lemma repos_path_acme_1:
  "repos_path ''acme'' 1 = ''/orgs/acme/repos?per_page=100&page=1&type=public&sort=full_name''"
  by (simp add: repos_path_def per_page_def show_nat.simps char_of_eq_iff)

lemma repos_path_acme_2:
  "repos_path ''acme'' 2 = ''/orgs/acme/repos?per_page=100&page=2&type=public&sort=full_name''"
  by (simp add: repos_path_def per_page_def show_nat.simps char_of_eq_iff)

text \<open>
  C4. The lister asks for pages of 100 repositories, from page 1 on, goes to the next page
  as long as the page it got is full, stops at the first page that is short (or empty) and
  returns all pages in order. When page 1 is full and page 2 is short, it makes exactly the
  two requests and returns page 1 followed by page 2. Whenever some page is short, it ends.
\<close>

theorem listAllOrgRepos_short_page:
  assumes "1 \<le> k"
    and "\<forall>p. 1 \<le> p \<and> p < k \<longrightarrow>
           gh w cfg (repos_path org_name p) = Inr (batch p) \<and> per_page \<le> length (batch p)"
    and "gh w cfg (repos_path org_name k) = Inr (batch k)"
    and "length (batch k) < per_page"
  shows "listAllOrgRepos w cfg org_name =
           Some (Inr (concat (map batch [1..<Suc k])), map (repos_path org_name) [1..<Suc k])
         \<and> per_page = 100
         \<and> (k = 2 \<longrightarrow> listAllOrgRepos w cfg org_name =
               Some (Inr (batch 1 @ batch 2), [repos_path org_name 1, repos_path org_name 2]))
         \<and> (\<forall>j. 1 \<le> j \<and> (\<forall>b. gh w cfg (repos_path org_name j) = Inr b \<longrightarrow> length b < per_page)
               \<longrightarrow> (\<exists>res. listAllOrgRepos w cfg org_name = Some res))"
proof -
  have main: "listAllOrgRepos w cfg org_name =
           Some (Inr (concat (map batch [1..<Suc k])), map (repos_path org_name) [1..<Suc k])"
    unfolding listAllOrgRepos_pages [OF assms(1,2)] list_loop_short [OF assms(3,4)]
      upt_snoc [OF assms(1)] by simp
  have two: "listAllOrgRepos w cfg org_name =
               Some (Inr (batch 1 @ batch 2), [repos_path org_name 1, repos_path org_name 2])"
    if "k = 2"
    using main that by (simp add: upt_conv_Cons numeral_2_eq_2 [symmetric])
  have c3: "k = 2 \<longrightarrow> listAllOrgRepos w cfg org_name =
               Some (Inr (batch 1 @ batch 2), [repos_path org_name 1, repos_path org_name 2])"
    using two by blast
  have c4: "\<forall>j. 1 \<le> j \<and> (\<forall>b. gh w cfg (repos_path org_name j) = Inr b \<longrightarrow> length b < per_page)
               \<longrightarrow> (\<exists>res. listAllOrgRepos w cfg org_name = Some res)"
    using listAllOrgRepos_terminates by blast
  have c2: "per_page = 100"
    by (simp add: per_page_def)
  show ?thesis
    by (intro conjI) (rule main, rule c2, rule c3, rule c4)
qed

theorem listAllOrgRepos_short_page_witness:
  "gh paged_world acme_cfg (repos_path ''acme'' 1) = Inr (replicate 100 lab2_repo)
   \<and> per_page \<le> length (replicate 100 lab2_repo)
   \<and> gh paged_world acme_cfg (repos_path ''acme'' 2) = Inr [lab1_repo]
   \<and> length [lab1_repo] < per_page
   \<and> listAllOrgRepos paged_world acme_cfg ''acme'' =
       Some (Inr (replicate 100 lab2_repo @ [lab1_repo]),
             [''/orgs/acme/repos?per_page=100&page=1&type=public&sort=full_name'',
              ''/orgs/acme/repos?per_page=100&page=2&type=public&sort=full_name''])"
proof -
  define batch where "batch p = (if p = 1 then replicate 100 lab2_repo else [lab1_repo])"
    for p :: nat
  have g1: "gh paged_world acme_cfg (repos_path ''acme'' 1) = Inr (replicate 100 lab2_repo)"
    unfolding repos_path_acme_1 by (simp add: gh_def paged_world_def found_def ok_def)
  have g2: "gh paged_world acme_cfg (repos_path ''acme'' 2) = Inr [lab1_repo]"
    unfolding repos_path_acme_2 by (simp add: gh_def paged_world_def found_def ok_def)
  have h1: "(1::nat) \<le> 2" by simp
  have h2: "\<forall>p. 1 \<le> p \<and> p < 2 \<longrightarrow>
      gh paged_world acme_cfg (repos_path ''acme'' p) = Inr (batch p) \<and> per_page \<le> length (batch p)"
  proof (intro allI impI)
    fix p :: nat assume "1 \<le> p \<and> p < 2"
    then have "p = 1" by simp
    then show "gh paged_world acme_cfg (repos_path ''acme'' p) = Inr (batch p)
        \<and> per_page \<le> length (batch p)"
      using g1 by (simp add: batch_def per_page_def)
  qed
  have h3: "gh paged_world acme_cfg (repos_path ''acme'' 2) = Inr (batch 2)"
    using g2 by (simp add: batch_def)
  have h4: "length (batch 2) < per_page"
    by (simp add: batch_def per_page_def)
  show ?thesis
    using listAllOrgRepos_short_page [OF h1 h2 h3 h4] g1 g2
    by (simp add: batch_def per_page_def repos_path_acme_1 [unfolded One_nat_def]
        repos_path_acme_2 upt_conv_Cons numeral_2_eq_2 [symmetric])
qed

section \<open>The whole run\<close>

lemma gh_not_ok:
  "api_fetch w (''https://api.github.com'' @ path) (gh_headers cfg) = Resolved r \<Longrightarrow> \<not> ok r \<Longrightarrow>
   gh w cfg path =
     Inl (Error (''GitHub API '' @ show_nat (status r) @ '' on '' @ path @ '': '' @ body_text r))"
  by (simp add: gh_def)

lemma run_listing_error:
  "\<not> env_missing (token cfg) \<Longrightarrow> \<not> env_missing (org cfg) \<Longrightarrow>
   listAllOrgRepos w cfg (env_str (org cfg)) = Some (Inl e, requested) \<Longrightarrow>
   run w cfg = Some (Aborted e)"
  by (simp add: run_def)

lemma run_Wrote:
  assumes "run w cfg = Some (Wrote c)"
  shows "\<exists>listed requested collected.
           listAllOrgRepos w cfg (env_str (org cfg)) = Some (Inr listed, requested)
           \<and> main_loop w cfg (filter_repos cfg listed) [] = Inr collected
           \<and> sort_items w collected = Inr (items c)"
  using assms
  by (auto simp: run_def split: if_splits option.splits prod.splits sum.splits)

lemma main_loop_Inr:
  "main_loop w cfg repos acc = Inr xs \<Longrightarrow>
   \<exists>yss. list_all2 (\<lambda>repo ys. repo_items w cfg repo = Inr ys) repos yss \<and> xs = acc @ concat yss"
proof (induction repos arbitrary: acc)
  case Nil
  then show ?case by simp
next
  case (Cons repo repos)
  from Cons.prems obtain new where new: "repo_items w cfg repo = Inr new"
    and rest: "main_loop w cfg repos (acc @ new) = Inr xs"
    by (auto split: sum.splits)
  from Cons.IH [OF rest] obtain yss
    where "list_all2 (\<lambda>repo ys. repo_items w cfg repo = Inr ys) repos yss"
      and "xs = (acc @ new) @ concat yss"
    by blast
  then have "list_all2 (\<lambda>repo ys. repo_items w cfg repo = Inr ys) (repo # repos) (new # yss)
      \<and> xs = acc @ concat (new # yss)"
    using new by simp
  then show ?case by blast
qed

lemma main_loop_processed:
  assumes "main_loop w cfg repos acc = Inr xs" and "repo \<in> set repos"
  shows "\<exists>ys. repo_items w cfg repo = Inr ys"
proof -
  from main_loop_Inr [OF assms(1)] obtain yss
    where "list_all2 (\<lambda>repo ys. repo_items w cfg repo = Inr ys) repos yss"
    by blast
  with assms(2) show ?thesis
    by (auto simp: list_all2_conv_all_nth in_set_conv_nth)
qed

lemma main_loop_member:
  assumes "main_loop w cfg repos [] = Inr xs" and "x \<in> set xs"
  shows "\<exists>repo ys. repo \<in> set repos \<and> repo_items w cfg repo = Inr ys \<and> x \<in> set ys"
proof -
  from main_loop_Inr [OF assms(1)] obtain yss
    where all: "list_all2 (\<lambda>repo ys. repo_items w cfg repo = Inr ys) repos yss"
      and xs: "xs = concat yss"
    by auto
  from assms(2) xs obtain ys where ys: "ys \<in> set yss" "x \<in> set ys"
    by auto
  then obtain i where i: "i < length yss" "yss ! i = ys"
    by (auto simp: in_set_conv_nth)
  with all have "repos ! i \<in> set repos" "repo_items w cfg (repos ! i) = Inr ys"
    by (auto simp: list_all2_conv_all_nth)
  with ys show ?thesis by blast
qed

lemma run_acme: "run acme_world acme_cfg = Some (Wrote acme_catalog)"
  by code_simp

lemma gh_failing_1:
  "gh failing_world acme_cfg (repos_path ''acme'' 1) = Inr (replicate 100 lab2_repo)"
  unfolding repos_path_acme_1 by (simp add: gh_def failing_world_def found_def ok_def)

text \<open>
  C6. If the listing API answers some page with a response that is not a success, the
  whole run aborts with exit status 1; the error raised holds the HTTP status and the text
  of the response body; and the catalog file is not written. The file is written only
  after the listing has ended and every repository that passed the filter has been
  processed.
\<close>

theorem listing_failure_aborts:
  assumes "\<not> env_missing (token cfg)" and "\<not> env_missing (org cfg)"
    and "1 \<le> k"
    and "\<forall>p. 1 \<le> p \<and> p < k \<longrightarrow>
           gh w cfg (repos_path (env_str (org cfg)) p) = Inr (batch p)
           \<and> per_page \<le> length (batch p)"
    and "api_fetch w (''https://api.github.com'' @ repos_path (env_str (org cfg)) k)
           (gh_headers cfg) = Resolved r"
    and "\<not> ok r"
  shows "(\<exists>out. run w cfg = Some out
            \<and> out = Aborted (Error (''GitHub API '' @ show_nat (status r) @ '' on ''
                       @ repos_path (env_str (org cfg)) k @ '': '' @ body_text r))
            \<and> exit_code out = 1 \<and> written out = None)
         \<and> (\<forall>t. text_body r = Some t \<longrightarrow> body_text r = t)
         \<and> (\<forall>w' cfg' c. run w' cfg' = Some (Wrote c) \<longrightarrow>
               (\<exists>listed requested collected.
                  listAllOrgRepos w' cfg' (env_str (org cfg')) = Some (Inr listed, requested)
                  \<and> main_loop w' cfg' (filter_repos cfg' listed) [] = Inr collected
                  \<and> (\<forall>repo \<in> set (filter_repos cfg' listed). \<exists>ys. repo_items w' cfg' repo = Inr ys)
                  \<and> sort_items w' collected = Inr (items c)))"
proof -
  let ?o = "env_str (org cfg)"
  let ?e = "Error (''GitHub API '' @ show_nat (status r) @ '' on '' @ repos_path ?o k @ '': ''
              @ body_text r)"
  have "gh w cfg (repos_path ?o k) = Inl ?e"
    using assms(5,6) by (rule gh_not_ok)
  then have "listAllOrgRepos w cfg ?o = Some (Inl ?e, map (repos_path ?o) [1..<k] @ [repos_path ?o k])"
    unfolding listAllOrgRepos_pages [OF assms(3,4)] by (rule list_loop_error)
  then have "run w cfg = Some (Aborted ?e)"
    using assms(1,2) by (rule run_listing_error [rotated 2])
  then have c1: "\<exists>out. run w cfg = Some out \<and> out = Aborted ?e \<and> exit_code out = 1 \<and> written out = None"
    by simp
  have c2: "\<forall>t. text_body r = Some t \<longrightarrow> body_text r = t"
    by (simp add: body_text_def)
  have c3: "\<exists>listed requested collected.
                  listAllOrgRepos w' cfg' (env_str (org cfg')) = Some (Inr listed, requested)
                  \<and> main_loop w' cfg' (filter_repos cfg' listed) [] = Inr collected
                  \<and> (\<forall>repo \<in> set (filter_repos cfg' listed). \<exists>ys. repo_items w' cfg' repo = Inr ys)
                  \<and> sort_items w' collected = Inr (items c)"
    if "run w' cfg' = Some (Wrote c)" for w' cfg' c
  proof -
    from run_Wrote [OF that] obtain listed requested collected
      where l: "listAllOrgRepos w' cfg' (env_str (org cfg')) = Some (Inr listed, requested)"
        and m: "main_loop w' cfg' (filter_repos cfg' listed) [] = Inr collected"
        and s: "sort_items w' collected = Inr (items c)"
      by blast
    have "\<forall>repo \<in> set (filter_repos cfg' listed). \<exists>ys. repo_items w' cfg' repo = Inr ys"
      using main_loop_processed [OF m] by blast
    with l m s show ?thesis by blast
  qed
  show ?thesis
    using c1 c2 c3 by blast
qed

theorem listing_failure_aborts_witness:
  "\<not> env_missing (token acme_cfg) \<and> \<not> env_missing (org acme_cfg)
   \<and> gh failing_world acme_cfg (repos_path ''acme'' 1) = Inr (replicate 100 lab2_repo)
   \<and> per_page \<le> length (replicate 100 lab2_repo)
   \<and> api_fetch failing_world (''https://api.github.com'' @ repos_path ''acme'' 2)
        (gh_headers acme_cfg) = Resolved server_error
   \<and> \<not> ok server_error
   \<and> run failing_world acme_cfg =
       Some (Aborted (Error
         ''GitHub API 500 on /orgs/acme/repos?per_page=100&page=2&type=public&sort=full_name: boom''))
   \<and> run acme_world acme_cfg = Some (Wrote acme_catalog)
   \<and> (\<exists>listed requested collected.
         listAllOrgRepos acme_world acme_cfg ''acme'' = Some (Inr listed, requested)
         \<and> main_loop acme_world acme_cfg (filter_repos acme_cfg listed) [] = Inr collected
         \<and> (\<forall>repo \<in> set (filter_repos acme_cfg listed).
               \<exists>ys. repo_items acme_world acme_cfg repo = Inr ys)
         \<and> sort_items acme_world collected = Inr (items acme_catalog))"
proof -
  have o: "env_str (org acme_cfg) = ''acme''"
    by (simp add: acme_cfg_def)
  have h1: "\<not> env_missing (token acme_cfg)" and h2: "\<not> env_missing (org acme_cfg)"
    by (simp_all add: acme_cfg_def)
  have h3: "(1::nat) \<le> 2" by simp
  have h4: "\<forall>p. 1 \<le> p \<and> p < 2 \<longrightarrow>
      gh failing_world acme_cfg (repos_path (env_str (org acme_cfg)) p)
        = Inr ((\<lambda>p. replicate 100 lab2_repo) p)
      \<and> per_page \<le> length ((\<lambda>p. replicate 100 lab2_repo) p)"
  proof (intro allI impI)
    fix p :: nat assume "1 \<le> p \<and> p < 2"
    then have "p = 1" by simp
    then show "gh failing_world acme_cfg (repos_path (env_str (org acme_cfg)) p)
        = Inr ((\<lambda>p. replicate 100 lab2_repo) p)
      \<and> per_page \<le> length ((\<lambda>p. replicate 100 lab2_repo) p)"
      using gh_failing_1 by (simp add: o per_page_def)
  qed
  have h5: "api_fetch failing_world (''https://api.github.com'' @ repos_path (env_str (org acme_cfg)) 2)
        (gh_headers acme_cfg) = Resolved server_error"
    unfolding o repos_path_acme_2 by (simp add: failing_world_def)
  have h6: "\<not> ok server_error"
    by (simp add: ok_def server_error_def)
  have msg: "''GitHub API '' @ show_nat (status server_error) @ '' on ''
      @ repos_path (env_str (org acme_cfg)) 2 @ '': '' @ body_text server_error
      = ''GitHub API 500 on /orgs/acme/repos?per_page=100&page=2&type=public&sort=full_name: boom''"
    unfolding o repos_path_acme_2
    by (simp add: server_error_def body_text_def show_nat.simps char_of_eq_iff)
  note inst = listing_failure_aborts [OF h1 h2 h3 h4 h5 h6]
  have a: "run failing_world acme_cfg =
       Some (Aborted (Error
         ''GitHub API 500 on /orgs/acme/repos?per_page=100&page=2&type=public&sort=full_name: boom''))"
    using inst [THEN conjunct1] unfolding msg by simp
  have b: "\<exists>listed requested collected.
         listAllOrgRepos acme_world acme_cfg ''acme'' = Some (Inr listed, requested)
         \<and> main_loop acme_world acme_cfg (filter_repos acme_cfg listed) [] = Inr collected
         \<and> (\<forall>repo \<in> set (filter_repos acme_cfg listed).
               \<exists>ys. repo_items acme_world acme_cfg repo = Inr ys)
         \<and> sort_items acme_world collected = Inr (items acme_catalog)"
    using inst [THEN conjunct2, THEN conjunct2, rule_format, OF run_acme] unfolding o .
  show ?thesis
    using h1 h2 h5 h6 a b gh_failing_1 run_acme unfolding o
    by (simp add: per_page_def)
qed

section \<open>Sorting\<close>

lemma consistent_total: "consistent cmp \<Longrightarrow> cmp a b \<le> 0 \<or> cmp b a \<le> 0"
  unfolding consistent_def by blast

lemma consistent_trans: "consistent cmp \<Longrightarrow> cmp a b \<le> 0 \<Longrightarrow> cmp b c \<le> 0 \<Longrightarrow> cmp a c \<le> 0"
  unfolding consistent_def by blast

lemma consistent_flip: "consistent cmp \<Longrightarrow> cmp a b < 0 \<longleftrightarrow> 0 < cmp b a"
  unfolding consistent_def by blast

lemma consistent_zero: "consistent cmp \<Longrightarrow> cmp a b = 0 \<longleftrightarrow> cmp b a = 0"
  using consistent_flip [of cmp a b] consistent_flip [of cmp b a] by linarith

lemma consistent_less_le:
  assumes "consistent cmp" and "cmp a b < 0" and "cmp b c \<le> 0"
  shows "cmp a c < 0"
proof (rule ccontr)
  assume "\<not> cmp a c < 0"
  then have "cmp c a \<le> 0"
    using consistent_flip [OF assms(1), of a c] by linarith
  with assms(3) have "cmp b a \<le> 0"
    using consistent_trans [OF assms(1)] by blast
  then show False
    using consistent_flip [OF assms(1), of a b] assms(2) by linarith
qed

lemma consistent_le_less:
  assumes "consistent cmp" and "cmp a b \<le> 0" and "cmp b c < 0"
  shows "cmp a c < 0"
proof (rule ccontr)
  assume "\<not> cmp a c < 0"
  then have "cmp c a \<le> 0"
    using consistent_flip [OF assms(1), of a c] by linarith
  with assms(2) have "cmp c b \<le> 0"
    using consistent_trans [OF assms(1)] by blast
  then show False
    using consistent_flip [OF assms(1), of b c] assms(3) by linarith
qed

lemma consistent_zero_trans:
  assumes "consistent cmp" and "cmp a b = 0" and "cmp b c = 0"
  shows "cmp a c = 0"
proof -
  have ba: "cmp b a = 0" and cb: "cmp c b = 0"
    using consistent_zero [OF assms(1), of a b] consistent_zero [OF assms(1), of b c] assms(2,3)
    by blast+
  have "cmp a c \<le> 0"
    by (rule consistent_trans [OF assms(1), of a b c]) (simp_all add: assms(2,3))
  moreover have "cmp c a \<le> 0"
    by (rule consistent_trans [OF assms(1), of c b a]) (simp_all add: ba cb)
  ultimately show ?thesis
    using consistent_flip [OF assms(1), of a c] by linarith
qed

lemma compare_keys_le:
  "compare_keys lc a b \<le> 0 \<longleftrightarrow>
     lc (fst a) (fst b) < 0 \<or> (lc (fst a) (fst b) = 0 \<and> lc (snd a) (snd b) \<le> 0)"
  by (auto simp: compare_keys_def Let_def)

lemma compare_keys_less:
  "compare_keys lc a b < 0 \<longleftrightarrow>
     lc (fst a) (fst b) < 0 \<or> (lc (fst a) (fst b) = 0 \<and> lc (snd a) (snd b) < 0)"
  by (auto simp: compare_keys_def Let_def)

lemma compare_keys_greater:
  "0 < compare_keys lc a b \<longleftrightarrow>
     0 < lc (fst a) (fst b) \<or> (lc (fst a) (fst b) = 0 \<and> 0 < lc (snd a) (snd b))"
  by (auto simp: compare_keys_def Let_def)

lemma consistent_compare_keys:
  assumes "consistent lc"
  shows "consistent (compare_keys lc)"
  unfolding consistent_def
proof (intro conjI allI impI)
  fix a b :: "string \<times> string"
  show "compare_keys lc a b \<le> 0 \<or> compare_keys lc b a \<le> 0"
    unfolding compare_keys_le
    using consistent_total [OF assms, of "snd a" "snd b"]
      consistent_flip [OF assms, of "fst a" "fst b"] consistent_flip [OF assms, of "fst b" "fst a"]
    by linarith
  show "compare_keys lc a b < 0 \<longleftrightarrow> 0 < compare_keys lc b a"
    unfolding compare_keys_less compare_keys_greater
    using consistent_flip [OF assms, of "snd a" "snd b"]
      consistent_flip [OF assms, of "fst a" "fst b"] consistent_zero [OF assms, of "fst a" "fst b"]
    by auto
next
  fix a b c :: "string \<times> string"
  assume "compare_keys lc a b \<le> 0 \<and> compare_keys lc b c \<le> 0"
  then show "compare_keys lc a c \<le> 0"
    unfolding compare_keys_le
    using consistent_less_le [OF assms, of "fst a" "fst b" "fst c"]
      consistent_le_less [OF assms, of "fst a" "fst b" "fst c"]
      consistent_zero_trans [OF assms, of "fst a" "fst b" "fst c"]
      consistent_trans [OF assms, of "snd a" "snd b" "snd c"]
    by auto
qed

lemma mset_insert_by: "mset (insert_by lc x ys) = add_mset x (mset ys)"
  by (induction ys) simp_all

lemma mset_sort_by: "mset (sort_by lc xs) = mset xs"
  by (induction xs) (simp_all add: sort_by_def mset_insert_by)

lemma set_insert_by: "set (insert_by lc x ys) = insert x (set ys)"
  using mset_insert_by [of lc x ys, THEN arg_cong, of set_mset] by simp

lemma sorted_insert_by:
  assumes "consistent lc"
    and "sorted_wrt (\<lambda>a b. compare_keys lc (fst a) (fst b) \<le> 0) ys"
  shows "sorted_wrt (\<lambda>a b. compare_keys lc (fst a) (fst b) \<le> 0) (insert_by lc x ys)"
  using assms(2)
proof (induction ys)
  case Nil
  then show ?case by simp
next
  case (Cons y ys)
  note c = consistent_compare_keys [OF assms(1)]
  show ?case
  proof (cases "compare_keys lc (fst x) (fst y) \<le> 0")
    case True
    then have "\<forall>z \<in> set ys. compare_keys lc (fst x) (fst z) \<le> 0"
      using Cons.prems consistent_trans [OF c] by auto
    with True Cons.prems show ?thesis by simp
  next
    case False
    then have "compare_keys lc (fst y) (fst x) \<le> 0"
      using consistent_total [OF c, of "fst x" "fst y"] by simp
    with False Cons show ?thesis
      by (auto simp: set_insert_by)
  qed
qed

lemma sorted_sort_by:
  "consistent lc \<Longrightarrow> sorted_wrt (\<lambda>a b. compare_keys lc (fst a) (fst b) \<le> 0) (sort_by lc xs)"
  by (induction xs) (simp_all add: sort_by_def sorted_insert_by)

lemma filter_insert_by:
  assumes "consistent lc"
  shows "filter (\<lambda>y. compare_keys lc k (fst y) = 0) (insert_by lc x ys) =
         (if compare_keys lc k (fst x) = 0 then x # filter (\<lambda>y. compare_keys lc k (fst y) = 0) ys
          else filter (\<lambda>y. compare_keys lc k (fst y) = 0) ys)"
proof (induction ys)
  case Nil
  then show ?case by simp
next
  case (Cons y ys)
  note c = consistent_compare_keys [OF assms]
  have "compare_keys lc (fst x) (fst y) = 0"
    if "compare_keys lc k (fst x) = 0" "compare_keys lc k (fst y) = 0"
    using consistent_zero_trans [OF c, of "fst x" k "fst y"] consistent_zero [OF c, of k "fst x"] that
    by blast
  with Cons show ?case by auto
qed

lemma filter_sort_by:
  "consistent lc \<Longrightarrow>
   filter (\<lambda>y. compare_keys lc k (fst y) = 0) (sort_by lc xs) =
   filter (\<lambda>y. compare_keys lc k (fst y) = 0) xs"
  by (induction xs) (simp_all add: sort_by_def filter_insert_by)

lemma keyed_Some:
  "keyed xs = Some ks \<Longrightarrow> map snd ks = xs \<and> (\<forall>p \<in> set ks. item_key (snd p) = Some (fst p))"
  by (induction xs arbitrary: ks) (auto split: option.splits)

lemma keyed_total: "\<forall>a \<in> set xs. item_key a \<noteq> None \<Longrightarrow> \<exists>ks. keyed xs = Some ks"
  by (induction xs) auto

lemma sort_items_mset_keyed:
  assumes "keyed xs = Some ks"
  shows "sort_items w xs = Inr (map snd (sort_by (localeCompare w) ks))
         \<and> mset (map snd (sort_by (localeCompare w) ks)) = mset xs"
proof -
  have "mset (map snd (sort_by (localeCompare w) ks)) = mset (map snd ks)"
    by (simp add: mset_sort_by)
  then show ?thesis
    using keyed_Some [OF assms] by (simp add: sort_items_def assms)
qed

lemma sort_items_mset:
  assumes "permuting (sort_unkeyed w)" and "sort_items w xs = Inr ys"
  shows "mset ys = mset xs"
proof (cases "keyed xs")
  case None
  then have "sort_unkeyed w xs = Inr ys"
    using assms(2) by (simp add: sort_items_def)
  then show ?thesis
    using assms(1) unfolding permuting_def by blast
next
  case (Some ks)
  then show ?thesis
    using sort_items_mset_keyed [OF Some, of w] assms(2) by simp
qed

lemma code_unit_compare_flip: "code_unit_compare a b < 0 \<longleftrightarrow> 0 < code_unit_compare b a"
  by (induction a b rule: code_unit_compare.induct) auto

lemma code_unit_compare_Cons_le:
  "code_unit_compare (x # xs) (y # ys) \<le> 0 \<longleftrightarrow>
     (of_char x :: nat) < of_char y
     \<or> ((of_char x :: nat) = of_char y \<and> code_unit_compare xs ys \<le> 0)"
  by auto

lemma code_unit_compare_trans:
  "code_unit_compare a b \<le> 0 \<Longrightarrow> code_unit_compare b c \<le> 0 \<Longrightarrow> code_unit_compare a c \<le> 0"
proof (induction a arbitrary: b c)
  case Nil
  then show ?case by (cases c) simp_all
next
  case (Cons x xs)
  from Cons.prems(1) obtain y ys where b: "b = y # ys"
    by (cases b) simp_all
  from Cons.prems(2) obtain z zs where c: "c = z # zs"
    unfolding b by (cases c) simp_all
  have xy: "(of_char x :: nat) < of_char y
     \<or> ((of_char x :: nat) = of_char y \<and> code_unit_compare xs ys \<le> 0)"
    using Cons.prems(1) unfolding b code_unit_compare_Cons_le .
  have yz: "(of_char y :: nat) < of_char z
     \<or> ((of_char y :: nat) = of_char z \<and> code_unit_compare ys zs \<le> 0)"
    using Cons.prems(2) unfolding b c code_unit_compare_Cons_le .
  have "(of_char x :: nat) < of_char z
     \<or> ((of_char x :: nat) = of_char z \<and> code_unit_compare xs zs \<le> 0)"
    using xy yz Cons.IH [of ys zs] by linarith
  then show ?case
    unfolding c code_unit_compare_Cons_le .
qed

lemma consistent_code_unit_compare: "consistent code_unit_compare"
  unfolding consistent_def
proof (intro conjI allI impI)
  fix a b :: string
  show "code_unit_compare a b < 0 \<longleftrightarrow> 0 < code_unit_compare b a"
    by (rule code_unit_compare_flip)
  then show "code_unit_compare a b \<le> 0 \<or> code_unit_compare b a \<le> 0"
    by linarith
next
  fix a b c :: string
  assume "code_unit_compare a b \<le> 0 \<and> code_unit_compare b c \<le> 0"
  then show "code_unit_compare a c \<le> 0"
    using code_unit_compare_trans by blast
qed

lemma item_key_string:
  "title a = JStr t \<Longrightarrow> course_code a = JStr c \<Longrightarrow> item_key a = Some (c, t)"
  by (simp add: item_key_def or_else_def)

lemma item_key_falsy:
  "title a = JStr t \<Longrightarrow> \<not> truthy (course_code a) \<Longrightarrow> item_key a = Some ([], t)"
  by (simp add: item_key_def or_else_def)

lemma sort_items_keyed:
  assumes "consistent (localeCompare w)" and "\<forall>a \<in> set xs. item_key a \<noteq> None"
  shows "\<exists>ys. sort_items w xs = Inr ys
           \<and> mset ys = mset xs
           \<and> sorted_wrt (\<lambda>a b. \<exists>n. compare_items (localeCompare w) a b = Some n \<and> n \<le> 0) ys
           \<and> (\<forall>a \<in> set xs.
                 filter (\<lambda>b. compare_items (localeCompare w) a b = Some 0) ys =
                 filter (\<lambda>b. compare_items (localeCompare w) a b = Some 0) xs)"
proof -
  let ?lc = "localeCompare w"
  from keyed_total [OF assms(2)] obtain ks where ks: "keyed xs = Some ks"
    by blast
  note k = keyed_Some [OF ks]
  define zs where "zs = sort_by ?lc ks"
  have res: "sort_items w xs = Inr (map snd zs)"
    by (simp add: sort_items_def ks zs_def)
  have keys: "\<forall>p \<in> set zs. item_key (snd p) = Some (fst p)"
    using k mset_sort_by [of ?lc ks, THEN arg_cong, of set_mset] by (simp add: zs_def)
  have "sorted_wrt (\<lambda>p q. compare_keys ?lc (fst p) (fst q) \<le> 0) zs"
    unfolding zs_def using assms(1) by (rule sorted_sort_by)
  then have "sorted_wrt (\<lambda>p q. \<exists>n. compare_items ?lc (snd p) (snd q) = Some n \<and> n \<le> 0) zs"
    by (rule sorted_wrt_mono_rel [rotated]) (simp add: compare_items_def keys)
  then have sorted: "sorted_wrt (\<lambda>a b. \<exists>n. compare_items ?lc a b = Some n \<and> n \<le> 0) (map snd zs)"
    by (simp add: sorted_wrt_map)
  have stable: "filter (\<lambda>b. compare_items ?lc a b = Some 0) (map snd zs) =
                 filter (\<lambda>b. compare_items ?lc a b = Some 0) xs" if "a \<in> set xs" for a
  proof -
    from assms(2) that obtain ka where ka: "item_key a = Some ka"
      by auto
    have "filter (\<lambda>b. compare_items ?lc a b = Some 0) (map snd zs)
        = map snd (filter (\<lambda>p. compare_items ?lc a (snd p) = Some 0) zs)"
      by (simp add: filter_map comp_def)
    also have "filter (\<lambda>p. compare_items ?lc a (snd p) = Some 0) zs
        = filter (\<lambda>p. compare_keys ?lc ka (fst p) = 0) zs"
      by (rule filter_cong) (simp_all add: compare_items_def ka keys)
    also have "\<dots> = filter (\<lambda>p. compare_keys ?lc ka (fst p) = 0) ks"
      unfolding zs_def using assms(1) by (rule filter_sort_by)
    also have "\<dots> = filter (\<lambda>p. compare_items ?lc a (snd p) = Some 0) ks"
      by (rule filter_cong) (use k in \<open>simp_all add: compare_items_def ka\<close>)
    also have "map snd \<dots> = filter (\<lambda>b. compare_items ?lc a b = Some 0) (map snd ks)"
      by (simp add: filter_map comp_def)
    finally show ?thesis
      using k by simp
  qed
  have "mset (map snd zs) = mset xs"
    using sort_items_mset_keyed [OF ks, of w] by (simp add: zs_def)
  with res sorted stable show ?thesis
    by blast
qed

lemma item_key_iff:
  "item_key a \<noteq> None \<longleftrightarrow>
     (\<exists>t. title a = JStr t) \<and> (\<not> truthy (course_code a) \<or> (\<exists>c. course_code a = JStr c))"
proof (cases "title a")
  case (JStr t)
  then show ?thesis
    by (cases "course_code a") (simp_all add: item_key_def or_else_def)
qed (simp_all add: item_key_def split: option.splits)

lemma plain_codes: "plain []" "plain ''A100''" "plain ''A200''" "plain ''B101''"
  by (simp_all add: plain_def plain_char_def)

lemma lexical_on_plain_sign:
  assumes "lexical_on_plain lc" and "plain a" and "plain b"
  shows "(lc a b < 0 \<longleftrightarrow> code_unit_compare a b < 0)
         \<and> (0 < lc a b \<longleftrightarrow> 0 < code_unit_compare a b)"
proof -
  have "sgn (lc a b) = sgn (code_unit_compare a b)"
    using assms unfolding lexical_on_plain_def by blast
  then show ?thesis
    by (metis sgn_less sgn_greater)
qed

lemma empty_before_plain:
  assumes "lexical_on_plain lc" and "s \<noteq> []" and "plain s"
  shows "lc [] s < 0"
proof -
  obtain c cs where "s = c # cs"
    using assms(2) by (cases s) auto
  then have "code_unit_compare [] s < 0"
    by simp
  then show ?thesis
    using lexical_on_plain_sign [OF assms(1) plain_codes(1) assms(3)] by blast
qed

lemma sort_items_example:
  assumes "lexical_on_plain (localeCompare w)"
    and a: "course_code a = JStr ''B101''" "title a = JStr ''x''"
    and b: "course_code b = JNull" "title b = JStr ''y''"
    and c: "course_code c = JStr ''A200''" "title c = JStr ''z''"
    and d: "course_code d = JStr ''A100''" "title d = JStr ''w''"
  shows "sort_items w [a, b, c, d] = Inr [b, d, c, a]"
proof -
  let ?lc = "localeCompare w"
  note sign = lexical_on_plain_sign [OF assms(1)]
  have l1: "?lc [] ''A100'' < 0"
    using sign [OF plain_codes(1) plain_codes(2)] by simp
  have g1: "0 < ?lc ''A200'' ''A100''"
    using sign [OF plain_codes(3) plain_codes(2)] by simp
  have g2: "0 < ?lc ''B101'' []"
    using sign [OF plain_codes(4) plain_codes(1)] by simp
  have g3: "0 < ?lc ''B101'' ''A100''"
    using sign [OF plain_codes(4) plain_codes(2)] by simp
  have g4: "0 < ?lc ''B101'' ''A200''"
    using sign [OF plain_codes(4) plain_codes(3)] by simp
  have keys: "keyed [a, b, c, d] =
      Some [((''B101'', ''x''), a), (([], ''y''), b), ((''A200'', ''z''), c), ((''A100'', ''w''), d)]"
    by (simp add: item_key_string a c d item_key_falsy b)
  have c1: "\<not> compare_keys ?lc (''A200'', ''z'') (''A100'', ''w'') \<le> 0"
    using g1 by (simp add: compare_keys_le)
  have c2: "compare_keys ?lc ([], ''y'') (''A100'', ''w'') \<le> 0"
    using l1 by (simp add: compare_keys_le)
  have c3: "\<not> compare_keys ?lc (''B101'', ''x'') ([], ''y'') \<le> 0"
    "\<not> compare_keys ?lc (''B101'', ''x'') (''A100'', ''w'') \<le> 0"
    "\<not> compare_keys ?lc (''B101'', ''x'') (''A200'', ''z'') \<le> 0"
    using g2 g3 g4 by (simp_all add: compare_keys_le)
  show ?thesis
    by (simp add: sort_items_def keys sort_by_def c1 c2 c3 del: keyed.simps)
qed

lemma lexical_on_plain_code_unit_compare: "lexical_on_plain code_unit_compare"
  by (simp add: lexical_on_plain_def)

text \<open>
  An item need not have a key: the normalizer keeps a course code that is a number, and
  the comparator then calls \<^verbatim>\<open>localeCompare\<close> on it.
\<close>

lemma numeric_code_has_no_key:
  "\<exists>x. normalizeItem acme_cfg numeric_code_item demo_repo = Inr x
       \<and> course_code x = JNum 5 \<and> item_key x = None"
  by (simp add: normalizeItem_def synth_id_def or_else_def coalesce_def item_key_def
      numeric_code_item_def)

text \<open>
  C1, as amended. Let the host's \<^verbatim>\<open>localeCompare\<close> be a consistent comparator that
  orders the strings of digits and capital letters lexically, and let every collected item
  have a string as its title and a string or a falsy value as its course code. Then the
  aggregator sorts the items into a total order with the primary key \<^verbatim>\<open>course_code\<close>
  (an absent or null code, like any falsy one, counts as the empty string; ascending) and
  the secondary key \<^verbatim>\<open>title\<close> (ascending), and the sort is stable. The empty string
  comes before every non-empty code of digits and capital letters; so, for any four items
  with the course codes B101, null, A200, A100 and the titles x, y, z, w, the output has
  the item with the null code first, and then A100, A200, B101.
\<close>

theorem sort_items_total_order:
  assumes "consistent (localeCompare w)" and "lexical_on_plain (localeCompare w)"
    and "\<forall>a \<in> set xs. (\<exists>t. title a = JStr t)
           \<and> (\<not> truthy (course_code a) \<or> (\<exists>c. course_code a = JStr c))"
  shows
    "(\<exists>ys. sort_items w xs = Inr ys
        \<and> mset ys = mset xs
        \<and> sorted_wrt (\<lambda>a b. \<exists>n. compare_items (localeCompare w) a b = Some n \<and> n \<le> 0) ys
        \<and> (\<forall>a \<in> set xs.
              filter (\<lambda>b. compare_items (localeCompare w) a b = Some 0) ys =
              filter (\<lambda>b. compare_items (localeCompare w) a b = Some 0) xs))
     \<and> (\<forall>a t c. title a = JStr t \<and> course_code a = JStr c \<longrightarrow> item_key a = Some (c, t))
     \<and> (\<forall>a t. title a = JStr t \<and> \<not> truthy (course_code a) \<longrightarrow> item_key a = Some ([], t))
     \<and> (\<forall>c t c' t'. compare_keys (localeCompare w) (c, t) (c', t') \<le> 0 \<longleftrightarrow>
            localeCompare w c c' < 0 \<or> (localeCompare w c c' = 0 \<and> localeCompare w t t' \<le> 0))
     \<and> (\<forall>s. s \<noteq> [] \<and> plain s \<longrightarrow> localeCompare w [] s < 0)
     \<and> (\<forall>a b c d.
            course_code a = JStr ''B101'' \<and> title a = JStr ''x''
            \<and> course_code b = JNull \<and> title b = JStr ''y''
            \<and> course_code c = JStr ''A200'' \<and> title c = JStr ''z''
            \<and> course_code d = JStr ''A100'' \<and> title d = JStr ''w''
            \<longrightarrow> sort_items w [a, b, c, d] = Inr [b, d, c, a])"
proof -
  have keyed_all: "\<forall>a \<in> set xs. item_key a \<noteq> None"
    using assms(3) item_key_iff by blast
  have keys: "\<forall>c t c' t'. compare_keys (localeCompare w) (c, t) (c', t') \<le> 0 \<longleftrightarrow>
            localeCompare w c c' < 0 \<or> (localeCompare w c c' = 0 \<and> localeCompare w t t' \<le> 0)"
    by (simp add: compare_keys_le)
  have empty: "\<forall>s. s \<noteq> [] \<and> plain s \<longrightarrow> localeCompare w [] s < 0"
    using empty_before_plain [OF assms(2)] by blast
  have four: "\<forall>a b c d.
            course_code a = JStr ''B101'' \<and> title a = JStr ''x''
            \<and> course_code b = JNull \<and> title b = JStr ''y''
            \<and> course_code c = JStr ''A200'' \<and> title c = JStr ''z''
            \<and> course_code d = JStr ''A100'' \<and> title d = JStr ''w''
            \<longrightarrow> sort_items w [a, b, c, d] = Inr [b, d, c, a]"
    using sort_items_example [OF assms(2)] by blast
  show ?thesis
    using sort_items_keyed [OF assms(1) keyed_all] keys empty four item_key_string item_key_falsy
    by blast
qed

theorem sort_items_total_order_witness:
  "consistent (localeCompare acme_world) \<and> lexical_on_plain (localeCompare acme_world)
   \<and> course_code b101_item = JStr ''B101'' \<and> title b101_item = JStr ''x''
   \<and> course_code null_item = JNull \<and> title null_item = JStr ''y''
   \<and> course_code a200_item = JStr ''A200'' \<and> title a200_item = JStr ''z''
   \<and> course_code a100_item = JStr ''A100'' \<and> title a100_item = JStr ''w''
   \<and> (\<exists>ys. sort_items acme_world [b101_item, null_item, a200_item, a100_item] = Inr ys
          \<and> mset ys = mset [b101_item, null_item, a200_item, a100_item])
   \<and> sort_items acme_world [b101_item, null_item, a200_item, a100_item]
       = Inr [null_item, a100_item, a200_item, b101_item]"
proof -
  have lc: "localeCompare acme_world = code_unit_compare"
    by (simp add: acme_world_def)
  have h1: "consistent (localeCompare acme_world)"
    unfolding lc by (rule consistent_code_unit_compare)
  have h2: "lexical_on_plain (localeCompare acme_world)"
    unfolding lc by (rule lexical_on_plain_code_unit_compare)
  have fields:
    "course_code b101_item = JStr ''B101'' \<and> title b101_item = JStr ''x''
     \<and> course_code null_item = JNull \<and> title null_item = JStr ''y''
     \<and> course_code a200_item = JStr ''A200'' \<and> title a200_item = JStr ''z''
     \<and> course_code a100_item = JStr ''A100'' \<and> title a100_item = JStr ''w''"
    by (simp add: b101_item_def null_item_def a200_item_def a100_item_def coded_item_def)
  then have h3: "\<forall>a \<in> set [b101_item, null_item, a200_item, a100_item].
      (\<exists>t. title a = JStr t) \<and> (\<not> truthy (course_code a) \<or> (\<exists>c. course_code a = JStr c))"
    by simp
  note inst = sort_items_total_order [OF h1 h2 h3]
  have general: "\<exists>ys. sort_items acme_world [b101_item, null_item, a200_item, a100_item] = Inr ys
          \<and> mset ys = mset [b101_item, null_item, a200_item, a100_item]"
    using inst [THEN conjunct1] by blast
  have order: "sort_items acme_world [b101_item, null_item, a200_item, a100_item]
       = Inr [null_item, a100_item, a200_item, b101_item]"
    using inst [THEN conjunct2, THEN conjunct2, THEN conjunct2, THEN conjunct2, THEN conjunct2,
        rule_format, of b101_item null_item a200_item a100_item] fields
    by blast
  show ?thesis
    using h1 h2 fields general order by blast
qed

text \<open>
  The order the claim gave for the four items, with the null code last, is not the order
  of the output: the empty-string key sorts first.
\<close>

theorem null_code_sorts_first:
  "sort_items acme_world [b101_item, null_item, a200_item, a100_item]
     = Inr [null_item, a100_item, a200_item, b101_item]
   \<and> map course_code [null_item, a100_item, a200_item, b101_item]
       = [JNull, JStr ''A100'', JStr ''A200'', JStr ''B101'']
   \<and> map course_code [null_item, a100_item, a200_item, b101_item]
       \<noteq> [JStr ''A100'', JStr ''A200'', JStr ''B101'', JNull]"
  by (simp add: sort_items_def item_key_def or_else_def sort_by_def compare_keys_def
      b101_item_def null_item_def a200_item_def a100_item_def coded_item_def acme_world_def)

section \<open>Repository context\<close>

lemma normalizeItem_repo:
  "normalizeItem cfg it repo = Inr x \<Longrightarrow> repo_name x = name repo \<and> repo_url x = html_url repo"
  by (auto simp: normalizeItem_def split: if_splits sum.splits)

lemma normalize_all_member:
  "normalize_all cfg repo raws = Inr xs \<Longrightarrow> x \<in> set xs \<Longrightarrow>
   \<exists>raw \<in> set raws. normalizeItem cfg raw repo = Inr x"
  by (induction raws arbitrary: xs) (auto split: sum.splits)

lemma repo_items_member:
  assumes "repo_items w cfg repo = Inr xs" and "x \<in> set xs"
  shows "\<exists>raws raw. iterate (member (fst (probe w (candidates cfg repo) JNull [])) ''items'') = Inr raws
           \<and> raw \<in> set raws \<and> normalizeItem cfg raw repo = Inr x"
proof -
  let ?data = "fst (probe w (candidates cfg repo) JNull [])"
  from assms obtain raws where "iterate (member ?data ''items'') = Inr raws"
    and "normalize_all cfg repo raws = Inr xs"
    by (auto simp: repo_items_def Let_def split: if_splits sum.splits)
  with normalize_all_member [OF this(2) assms(2)] show ?thesis
    by blast
qed

text \<open>
  C8. Every catalog item in the output has, as \<^verbatim>\<open>repo_name\<close> and \<^verbatim>\<open>repo_url\<close>,
  the name and the \<^verbatim>\<open>html_url\<close> of the repository under which its raw item was found:
  a repository that was listed and passed the filter, whose probed document holds the raw
  item the catalog item was normalized from. This holds for every item of every run that
  writes a catalog, whatever the engine's sort does, as long as it permutes.
\<close>

theorem output_items_carry_their_repository:
  assumes "permuting (sort_unkeyed w)"
    and "run w cfg = Some (Wrote c)" and "x \<in> set (items c)"
  shows "\<exists>listed requested repo raws raw.
           listAllOrgRepos w cfg (env_str (org cfg)) = Some (Inr listed, requested)
           \<and> repo \<in> set (filter_repos cfg listed)
           \<and> iterate (member (fst (probe w (candidates cfg repo) JNull [])) ''items'') = Inr raws
           \<and> raw \<in> set raws
           \<and> normalizeItem cfg raw repo = Inr x
           \<and> repo_name x = name repo \<and> repo_url x = html_url repo"
proof -
  from run_Wrote [OF assms(2)] obtain listed requested collected
    where l: "listAllOrgRepos w cfg (env_str (org cfg)) = Some (Inr listed, requested)"
      and m: "main_loop w cfg (filter_repos cfg listed) [] = Inr collected"
      and s: "sort_items w collected = Inr (items c)"
    by blast
  have "set (items c) = set collected"
    using sort_items_mset [OF assms(1) s] by (rule mset_eq_setD)
  with assms(3) have "x \<in> set collected"
    by simp
  from main_loop_member [OF m this] obtain repo ys
    where repo: "repo \<in> set (filter_repos cfg listed)"
      and ys: "repo_items w cfg repo = Inr ys" "x \<in> set ys"
    by blast
  from repo_items_member [OF ys] obtain raws raw
    where r: "iterate (member (fst (probe w (candidates cfg repo) JNull [])) ''items'') = Inr raws"
      "raw \<in> set raws" "normalizeItem cfg raw repo = Inr x"
    by blast
  from normalizeItem_repo [OF r(3)] l repo r show ?thesis
    by blast
qed

theorem output_items_carry_their_repository_witness:
  "permuting (sort_unkeyed acme_world)
   \<and> run acme_world acme_cfg = Some (Wrote acme_catalog)
   \<and> intro_catalog_item \<in> set (items acme_catalog)
   \<and> (\<exists>listed requested repo raws raw.
         listAllOrgRepos acme_world acme_cfg (env_str (org acme_cfg)) = Some (Inr listed, requested)
         \<and> repo \<in> set (filter_repos acme_cfg listed)
         \<and> iterate (member (fst (probe acme_world (candidates acme_cfg repo) JNull [])) ''items'')
             = Inr raws
         \<and> raw \<in> set raws
         \<and> normalizeItem acme_cfg raw repo = Inr intro_catalog_item
         \<and> repo_name intro_catalog_item = name repo
         \<and> repo_url intro_catalog_item = html_url repo)
   \<and> repo_name intro_catalog_item = name lab1_repo
   \<and> repo_url intro_catalog_item = html_url lab1_repo"
proof -
  have mem: "intro_catalog_item \<in> set (items acme_catalog)"
    by (simp add: acme_catalog_def)
  have "repo_name intro_catalog_item = name lab1_repo
      \<and> repo_url intro_catalog_item = html_url lab1_repo"
    by (simp add: intro_catalog_item_def lab1_repo_def)
  moreover have p: "permuting (sort_unkeyed acme_world)"
    by (simp add: permuting_def acme_world_def cautious_sort_def)
  ultimately show ?thesis
    using output_items_carry_their_repository [OF p run_acme mem] run_acme mem by blast
qed

end
